theory Spec2Isabelle
  imports Complex_Main
begin

section \<open>Values that cross an await\<close>

text \<open>
  A value thrown in JavaScript is either an instance of \<open>Error\<close>, with a name and a
  message, or something else. \<open>new Error(m)\<close> has the name \<open>Error\<close>; the exception
  raised by an aborted request has the name \<open>AbortError\<close>.
\<close>

datatype thrown = JsError (err_name: string) (err_message: string) | NonError

definition instanceofError :: "thrown \<Rightarrow> bool" where
  "instanceofError err = (case err of JsError n m \<Rightarrow> True | NonError \<Rightarrow> False)"

definition AbortError :: thrown where
  "AbortError = JsError ''AbortError'' ''The operation was aborted.''"

text \<open>A promise settles: it is fulfilled with a value or rejected with a thrown value.\<close>

datatype 'a settled = Fulfilled 'a | Rejected thrown

text \<open>Of a \<open>Response\<close> the hooks read the status only; \<open>response.ok\<close> is the 2xx range.\<close>

definition ok :: "nat \<Rightarrow> bool" where
  "ok status = (200 \<le> status \<and> status \<le> 299)"

text \<open>
  What \<open>await fetch(...)\<close> can hand to a hook in this repository: a \<open>Response\<close>; or, where
  the fetch wrapper returns what a function that is no handler returned, \<open>undefined\<close> or some
  other value, one that has neither \<open>ok\<close> nor \<open>status\<close>.
\<close>

datatype fetched = Response nat | NoResponse | Undefined

definition TypeError :: "string \<Rightarrow> thrown" where
  "TypeError m = JsError ''TypeError'' m"

text \<open>The template literal \<open>${response.status}\<close> renders the status in decimal.\<close>

definition digit :: "nat \<Rightarrow> char" where
  "digit d = ''0123456789'' ! d"

fun decimal :: "nat \<Rightarrow> string" where
  "decimal n = (if n < 10 then [digit n] else decimal (n div 10) @ [digit (n mod 10)])"

declare decimal.simps [simp del]

text \<open>
  \<open>response.ok\<close>: reading a property of \<open>undefined\<close> throws a \<open>TypeError\<close> (the message is
  the engine's; this is V8's), and a value without the property gives \<open>undefined\<close>, which
  is falsy. \<open>${response.status}\<close> of such a value is the text \<open>undefined\<close>.
\<close>

definition response_ok :: "fetched \<Rightarrow> thrown + bool" where
  "response_ok response =
     (case response of
        Response status \<Rightarrow> Inr (ok status)
      | NoResponse \<Rightarrow> Inr False
      | Undefined \<Rightarrow> Inl (TypeError ''Cannot read properties of undefined (reading 'ok')''))"

definition response_status :: "fetched \<Rightarrow> string" where
  "response_status response =
     (case response of
        Response status \<Rightarrow> decimal status
      | NoResponse \<Rightarrow> ''undefined''
      | Undefined \<Rightarrow> ''undefined'')"

section \<open>The transport: \<open>window.fetch\<close> as the repository installs it\<close>

text \<open>
  \<open>mockProductApi.ts\<close> and \<open>PollingDemo.tsx\<close> each replace \<open>window.fetch\<close> by a wrapper
  with a table of mock endpoints. Each table entry is the URL, the simulated latency in
  milliseconds and the status of the response that the handler builds.
\<close>

definition mockApiEndpoints :: "(string \<times> nat \<times> nat) list" where
  "mockApiEndpoints =
     [(''/api/products/widgets'', 800, 200),
      (''/api/products/gadgets'', 600, 200),
      (''/api/products/featured'', 500, 200)]"

definition mockApiEndpoints_polling :: "(string \<times> nat \<times> nat) list" where
  "mockApiEndpoints_polling =
     [(''/api/posts'', 800, 200),
      (''/api/users'', 600, 200),
      (''/api/error'', 500, 500)]"

text \<open>
  The wrappers test \<open>url in mockApiEndpoints\<close>, which holds for the table's own keys and
  for the property names that the table inherits from \<open>Object.prototype\<close>, and then call
  \<open>mockApiEndpoints[url]()\<close>, with no argument. For an inherited name this calls the
  inherited function on the table: it throws a \<open>TypeError\<close> (so does the call of
  \<open>__proto__\<close>, which is no function), or it returns \<open>undefined\<close>, or it returns a boolean,
  a string or an object. The messages of the errors are the engine's; these are V8's.
\<close>

definition Object_prototype :: "(string \<times> fetched settled) list" where
  "Object_prototype =
     [(''constructor'', Fulfilled NoResponse),
      (''__defineGetter__'',
         Rejected (TypeError ''Object.prototype.__defineGetter__: Expecting function'')),
      (''__defineSetter__'',
         Rejected (TypeError ''Object.prototype.__defineSetter__: Expecting function'')),
      (''hasOwnProperty'', Fulfilled NoResponse),
      (''__lookupGetter__'', Fulfilled Undefined),
      (''__lookupSetter__'', Fulfilled Undefined),
      (''isPrototypeOf'', Fulfilled NoResponse),
      (''propertyIsEnumerable'', Fulfilled NoResponse),
      (''toString'', Fulfilled NoResponse),
      (''valueOf'', Fulfilled NoResponse),
      (''__proto__'', Rejected (TypeError ''mockApiEndpoints[url] is not a function'')),
      (''toLocaleString'', Fulfilled NoResponse)]"

text \<open>
  What one wrapper makes of a URL that passes its test: what the hook's \<open>await\<close> receives,
  a value, or a thrown value, which reaches the catch block of \<open>fetchData\<close> whether the
  call throws or the promise rejects. \<open>None\<close>: the URL is not in the table.
\<close>

definition mock_handler :: "(string \<times> nat \<times> nat) list \<Rightarrow> string \<Rightarrow> fetched settled option" where
  "mock_handler table url =
     (case map_of table url of
        Some (ms, status) \<Rightarrow> Some (Fulfilled (Response status))
      | None \<Rightarrow> map_of Object_prototype url)"

text \<open>
  The wrapper of \<open>mockProductApi.ts\<close> is installed over the one of \<open>PollingDemo.tsx\<close>, which
  is its \<open>originalFetch\<close>.
\<close>

definition mock_response :: "string \<Rightarrow> fetched settled option" where
  "mock_response url =
     (case mock_handler mockApiEndpoints url of
        Some r \<Rightarrow> Some r
      | None \<Rightarrow> mock_handler mockApiEndpoints_polling url)"

text \<open>
  The platform's fetch honours the signal passed in \<open>init\<close>: once the signal is aborted, the
  pending promise rejects with \<open>AbortError\<close>, whatever the network would have delivered
  (\<open>raw\<close>). The same holds for the body read by \<open>response.json()\<close>.
\<close>

definition originalFetch :: "bool \<Rightarrow> 'r settled \<Rightarrow> 'r settled" where
  "originalFetch aborted raw = (if aborted then Rejected AbortError else raw)"

text \<open>
  \<open>window.fetch\<close>: a URL that a wrapper serves never sees \<open>init\<close>, so the hook receives the
  handler's response also when the caller's signal has been aborted meanwhile. Every other
  URL goes to the platform with \<open>init\<close>, and a status that the network delivers comes as a
  \<open>Response\<close>.
\<close>

definition window_fetch :: "string \<Rightarrow> bool \<Rightarrow> nat settled \<Rightarrow> fetched settled" where
  "window_fetch url aborted raw =
     (case mock_response url of
        Some r \<Rightarrow> r
      | None \<Rightarrow> map_settled Response (originalFetch aborted raw))"

text \<open>
  \<open>response.json()\<close>: the body of a mock response is a string held in memory, read without
  the network; the body of a platform response is tied to the request's signal.
\<close>

definition response_json :: "string \<Rightarrow> bool \<Rightarrow> 'a settled \<Rightarrow> 'a settled" where
  "response_json url aborted raw =
     (case mock_response url of
        Some r \<Rightarrow> raw
      | None \<Rightarrow> originalFetch aborted raw)"

section \<open>State shared by the two hooks\<close>

text \<open>
  One call of \<open>fetchData()\<close> is an attempt. It is suspended at \<open>await fetch(...)\<close>, then at
  \<open>await response.json()\<close>, then it is over. It carries the URL and the AbortController of
  the effect run that created its closure.
\<close>

datatype phase = AwaitFetch | AwaitJson | Over

record attempt =
  a_url :: string
  a_signal :: nat
  a_phase :: phase

text \<open>
  The three \<open>useState\<close> cells that both hooks expose, the AbortControllers created so far
  (\<open>True\<close> once \<open>abort()\<close> was called) and the attempts started so far.
\<close>

record ('a, 'e) hookState =
  data :: "'a option"
  isLoading :: bool
  error :: 'e
  controllers :: "bool list"
  attempts :: "attempt list"

definition new_attempt :: "string \<Rightarrow> nat \<Rightarrow> attempt" where
  "new_attempt url c = \<lparr>a_url = url, a_signal = c, a_phase = AwaitFetch\<rparr>"

definition set_phase :: "nat \<Rightarrow> phase \<Rightarrow> attempt list \<Rightarrow> attempt list" where
  "set_phase i p as = as[i := (as ! i)\<lparr>a_phase := p\<rparr>]"

definition aborted :: "bool list \<Rightarrow> nat \<Rightarrow> bool" where
  "aborted cs c = (c < length cs \<and> cs ! c)"

text \<open>
  What attempt \<open>i\<close> receives from \<open>await fetch(...)\<close> and from \<open>await response.json()\<close> when
  the network or the handler delivers \<open>raw\<close>: the transport sees the attempt's URL and the
  state of its signal at that moment.
\<close>

definition received_response :: "('a, 'e, 'z) hookState_scheme \<Rightarrow> nat \<Rightarrow> nat settled \<Rightarrow> fetched settled" where
  "received_response h i raw =
     (let a = attempts h ! i
      in window_fetch (a_url a) (aborted (controllers h) (a_signal a)) raw)"

definition received_result :: "('a, 'e, 'z) hookState_scheme \<Rightarrow> nat \<Rightarrow> 'r settled \<Rightarrow> 'r settled" where
  "received_result h i raw =
     (let a = attempts h ! i
      in response_json (a_url a) (aborted (controllers h) (a_signal a)) raw)"

definition awaits :: "('a, 'e, 'z) hookState_scheme \<Rightarrow> nat \<Rightarrow> phase \<Rightarrow> bool" where
  "awaits h i p = (i < length (attempts h) \<and> a_phase (attempts h ! i) = p)"

text \<open>The result state that a consumer reads.\<close>

definition exposed :: "('a, 'e, 'z) hookState_scheme \<Rightarrow> 'a option \<times> bool \<times> 'e" where
  "exposed h = (data h, isLoading h, error h)"

text \<open>The URL and the controller of every attempt, in the order of issue.\<close>

definition targets :: "('a, 'e, 'z) hookState_scheme \<Rightarrow> (string \<times> nat) list" where
  "targets h = map (\<lambda>a. (a_url a, a_signal a)) (attempts h)"

section \<open>Unit A: \<open>useGridData\<close>\<close>

text \<open>
  Besides the three exposed cells the hook holds the refetch trigger, the memo cell of
  \<open>useCallback\<close> (the identity of the memoised function), and what React keeps of the last
  effect run: its dependency values and the controller its cleanup closes over.
\<close>

record 'a gridHook = "('a, string option) hookState" +
  refetchTrigger :: nat
  refetchData_ref :: "nat option"
  renders :: nat
  effect :: "((string \<times> nat) \<times> nat) option"
  mounted :: bool

text \<open>The values of \<open>useState(null)\<close>, \<open>useState(true)\<close>, \<open>useState(null)\<close>, \<open>useState(0)\<close>.\<close>

definition useGridData_init :: "'a gridHook" where
  "useGridData_init =
     \<lparr>data = None, isLoading = True, error = None, controllers = [], attempts = [],
      refetchTrigger = 0, refetchData_ref = None, renders = 0, effect = None,
      mounted = True\<rparr>"

text \<open>\<open>refetchData\<close>: \<open>setRefetchTrigger((prev) => prev + 1)\<close>.\<close>

definition refetchData :: "'a gridHook \<Rightarrow> 'a gridHook" where
  "refetchData h = h\<lparr>refetchTrigger := refetchTrigger h + 1\<rparr>"

text \<open>
  \<open>useCallback(fn, deps)\<close>: the function created by this render is kept only when there is no
  memoised one or the dependencies differ from the memoised ones.
\<close>

definition useCallback :: "'f \<Rightarrow> 'd list \<Rightarrow> ('f \<times> 'd list) option \<Rightarrow> 'f \<times> 'd list" where
  "useCallback fn deps memo =
     (case memo of
        None \<Rightarrow> (fn, deps)
      | Some (f, d) \<Rightarrow> if d = deps then (f, d) else (fn, deps))"

subsection \<open>\<open>fetchData\<close>, cut at its two awaits\<close>

text \<open>Up to \<open>await fetch(apiUrl, {signal})\<close>.\<close>

definition useGridData_fetchData :: "string \<Rightarrow> nat \<Rightarrow> 'a gridHook \<Rightarrow> 'a gridHook" where
  "useGridData_fetchData apiUrl c h =
     h\<lparr>isLoading := True, error := None,
       attempts := attempts h @ [new_attempt apiUrl c]\<rparr>"

text \<open>
  The try block resumed with the settled fetch: a rejection is thrown, reading
  \<open>response.ok\<close> may throw, a response that is not ok throws an \<open>Error\<close> with the status
  in its message, an ok response goes on to \<open>response.json()\<close>. \<open>Inl\<close> is the value
  thrown.
\<close>

definition useGridData_try_response ::
  "fetched settled \<Rightarrow> 'a gridHook \<Rightarrow> thrown + 'a gridHook" where
  "useGridData_try_response r h =
     (case r of
        Rejected err \<Rightarrow> Inl err
      | Fulfilled response \<Rightarrow>
          (case response_ok response of
             Inl err \<Rightarrow> Inl err
           | Inr is_ok \<Rightarrow>
               if \<not> is_ok
               then Inl (JsError ''Error'' (''HTTP error! status: '' @ response_status response))
               else Inr h))"

text \<open>The try block resumed with the settled \<open>response.json()\<close>.\<close>

definition useGridData_try_result :: "'a settled \<Rightarrow> 'a gridHook \<Rightarrow> thrown + 'a gridHook" where
  "useGridData_try_result r h =
     (case r of
        Rejected err \<Rightarrow> Inl err
      | Fulfilled result \<Rightarrow> Inr (h\<lparr>data := Some result, isLoading := False\<rparr>))"

text \<open>The catch block. \<open>Inl\<close> would be a value that leaves \<open>fetchData\<close> uncaught.\<close>

definition useGridData_catch :: "thrown \<Rightarrow> 'a gridHook \<Rightarrow> thrown + 'a gridHook" where
  "useGridData_catch err h =
     (if instanceofError err \<and> err_name err = ''AbortError''
      then Inr h
      else
        let errorMessage =
              (if instanceofError err then err_message err else ''Failed to fetch data'')
        in Inr (h\<lparr>error := Some errorMessage, isLoading := False\<rparr>))"

definition useGridData_on_response ::
  "fetched settled \<Rightarrow> 'a gridHook \<Rightarrow> thrown + 'a gridHook" where
  "useGridData_on_response r h =
     (case useGridData_try_response r h of
        Inl err \<Rightarrow> useGridData_catch err h
      | Inr h' \<Rightarrow> Inr h')"

definition useGridData_on_result :: "'a settled \<Rightarrow> 'a gridHook \<Rightarrow> thrown + 'a gridHook" where
  "useGridData_on_result r h =
     (case useGridData_try_result r h of
        Inl err \<Rightarrow> useGridData_catch err h
      | Inr h' \<Rightarrow> Inr h')"

subsection \<open>The effect and one render\<close>

text \<open>The cleanup of an effect run: \<open>abortController.abort()\<close>.\<close>

definition useGridData_cleanup :: "nat \<Rightarrow> 'a gridHook \<Rightarrow> 'a gridHook" where
  "useGridData_cleanup c h = h\<lparr>controllers := (controllers h)[c := True]\<rparr>"

text \<open>The effect body: a new AbortController, then \<open>fetchData()\<close>.\<close>

definition useGridData_effect :: "string \<times> nat \<Rightarrow> 'a gridHook \<Rightarrow> 'a gridHook" where
  "useGridData_effect deps h =
     (let c = length (controllers h)
      in useGridData_fetchData (fst deps) c
           (h\<lparr>controllers := controllers h @ [False], effect := Some (deps, c)\<rparr>))"

text \<open>
  One render with the prop \<open>apiUrl\<close>, and its commit: the arrow function of this render is
  identified by the render's number and handed to \<open>useCallback\<close> with the dependencies
  \<open>[]\<close>; the effect runs when there was none or when \<open>[apiUrl, refetchTrigger]\<close> differ from
  the last run, after the cleanup of the last run.
\<close>

definition useGridData :: "string \<Rightarrow> 'a gridHook \<Rightarrow> 'a gridHook" where
  "useGridData apiUrl h =
     (let memo = (case refetchData_ref h of None \<Rightarrow> None | Some f \<Rightarrow> Some (f, []));
          h1 = h\<lparr>refetchData_ref := Some (fst (useCallback (renders h) ([] :: unit list) memo)),
                 renders := renders h + 1\<rparr>;
          deps = (apiUrl, refetchTrigger h)
      in case effect h of
           None \<Rightarrow> useGridData_effect deps h1
         | Some (d, c) \<Rightarrow>
             if d = deps then h1
             else useGridData_effect deps (useGridData_cleanup c h1))"

text \<open>Unmounting runs the cleanup of the last effect run.\<close>

definition useGridData_unmount :: "'a gridHook \<Rightarrow> 'a gridHook" where
  "useGridData_unmount h =
     (case effect h of
        None \<Rightarrow> h\<lparr>mounted := False\<rparr>
      | Some (d, c) \<Rightarrow> (useGridData_cleanup c h)\<lparr>mounted := False, effect := None\<rparr>)"

subsection \<open>Events of one hook instance\<close>

text \<open>
  What can happen to a mounted instance: a render with a key, committed; a call of
  \<open>refetchData()\<close>, which the consumer holds from the first render on and which only
  updates the trigger, so that the effect sees it at the next render, however many calls
  came before that render; the unmount; and the settling of a pending promise of attempt
  \<open>i\<close>, where the event carries what the network or the handler delivers and
  \<open>window_fetch\<close> decides what the awaiting attempt receives.
\<close>

datatype 'a grid_event =
    Render string
  | Refetch
  | Unmount
  | FetchSettles nat "nat settled"
  | JsonSettles nat "'a settled"

definition grid_fetch_settles :: "nat \<Rightarrow> nat settled \<Rightarrow> 'a gridHook \<Rightarrow> 'a gridHook" where
  "grid_fetch_settles i raw h =
     (if awaits h i AwaitFetch
      then
        let r = received_response h i raw;
            next = (case useGridData_try_response r h of Inl err \<Rightarrow> Over | Inr h' \<Rightarrow> AwaitJson)
        in (case useGridData_on_response r h of
              Inl err \<Rightarrow> h\<lparr>attempts := set_phase i Over (attempts h)\<rparr>
            | Inr h' \<Rightarrow> h'\<lparr>attempts := set_phase i next (attempts h')\<rparr>)
      else h)"

definition grid_json_settles :: "nat \<Rightarrow> 'a settled \<Rightarrow> 'a gridHook \<Rightarrow> 'a gridHook" where
  "grid_json_settles i raw h =
     (if awaits h i AwaitJson
      then
        let r = received_result h i raw
        in (case useGridData_on_result r h of
              Inl err \<Rightarrow> h\<lparr>attempts := set_phase i Over (attempts h)\<rparr>
            | Inr h' \<Rightarrow> h'\<lparr>attempts := set_phase i Over (attempts h')\<rparr>)
      else h)"

fun grid_step :: "'a gridHook \<Rightarrow> 'a grid_event \<Rightarrow> 'a gridHook" where
  "grid_step h (Render apiUrl) = (if mounted h then useGridData apiUrl h else h)"
| "grid_step h Refetch =
     (case effect h of
        None \<Rightarrow> h
      | Some (d, c) \<Rightarrow> if mounted h then refetchData h else h)"
| "grid_step h Unmount = (if mounted h then useGridData_unmount h else h)"
| "grid_step h (FetchSettles i raw) = grid_fetch_settles i raw h"
| "grid_step h (JsonSettles i raw) = grid_json_settles i raw h"

definition grid_run :: "'a gridHook \<Rightarrow> 'a grid_event list \<Rightarrow> 'a gridHook" where
  "grid_run h es = foldl grid_step h es"

text \<open>
  \<open>ProductGrid\<close> hands the hook's result to its render function, with \<open>data ?? []\<close> in the
  place of \<open>data\<close>.
\<close>

record 'p renderState =
  rs_isLoading :: bool
  rs_data :: "'p list"
  rs_error :: "string option"
  rs_refetchData :: "nat option"

definition ProductGrid :: "'p list gridHook \<Rightarrow> 'p renderState" where
  "ProductGrid h =
     \<lparr>rs_isLoading = isLoading h,
      rs_data = (case data h of None \<Rightarrow> [] | Some d \<Rightarrow> d),
      rs_error = error h,
      rs_refetchData = refetchData_ref h\<rparr>"

section \<open>Unit B: \<open>usePollingFetch\<close>\<close>

subsection \<open>The interval, a JavaScript number\<close>

text \<open>
  The argument \<open>interval\<close> is \<open>undefined\<close> or a number: a finite one, taken as a rational
  since every finite double is one, with the negative zero kept apart from zero because
  React compares dependencies with \<open>Object.is\<close>; an infinity; or not-a-number.
\<close>

datatype number = Num rat | NegZero | Infinity | NegInfinity | NaN

text \<open>The two halves of the guard \<open>interval && interval > 0\<close>.\<close>

definition truthy :: "number \<Rightarrow> bool" where
  "truthy x =
     (case x of
        Num q \<Rightarrow> q \<noteq> 0
      | NegZero \<Rightarrow> False
      | Infinity \<Rightarrow> True
      | NegInfinity \<Rightarrow> True
      | NaN \<Rightarrow> False)"

definition greater_than_zero :: "number \<Rightarrow> bool" where
  "greater_than_zero x =
     (case x of
        Num q \<Rightarrow> 0 < q
      | NegZero \<Rightarrow> False
      | Infinity \<Rightarrow> True
      | NegInfinity \<Rightarrow> False
      | NaN \<Rightarrow> False)"

text \<open>
  \<open>setInterval(handler, timeout)\<close>: the platform converts the timeout to a 32-bit signed
  integer (not-a-number, the zeros and the infinities give 0, a fraction is cut off, and
  the integer wraps modulo \<open>2^32\<close> into the signed range) and takes a negative timeout as
  0. The clock of this model ticks in milliseconds, so a timer with a timeout of 0 fires at
  every millisecond; platforms run such a timer every one to four milliseconds.
\<close>

definition IntegerPart :: "rat \<Rightarrow> int" where
  "IntegerPart q = (if q < 0 then - \<lfloor>- q\<rfloor> else \<lfloor>q\<rfloor>)"

definition ConvertToInt32 :: "number \<Rightarrow> int" where
  "ConvertToInt32 x =
     (case x of
        Num q \<Rightarrow>
          (let n = IntegerPart q mod 2 ^ 32
           in if 2 ^ 31 \<le> n then n - 2 ^ 32 else n)
      | NegZero \<Rightarrow> 0
      | Infinity \<Rightarrow> 0
      | NegInfinity \<Rightarrow> 0
      | NaN \<Rightarrow> 0)"

definition timer_period :: "number \<Rightarrow> nat" where
  "timer_period timeout =
     (let t = ConvertToInt32 timeout;
          t0 = (if t < 0 then 0 else t)
      in max 1 (nat t0))"

subsection \<open>The state of the hook\<close>

text \<open>
  An interval timer of the browser: its period and the milliseconds left until it fires
  next, and what the callback \<open>() => { fetchData(); }\<close> closes over, the URL and the
  AbortController of the effect run that called \<open>setInterval\<close>.
\<close>

record timer =
  t_period :: nat
  t_left :: nat
  t_url :: string
  t_signal :: nat

text \<open>
  The hook holds the three exposed cells; the browser holds the active interval timers by
  id (ids are positive); React keeps of the last effect run its dependency values
  \<open>[url, interval]\<close> and what its cleanup closes over, the controller and \<open>intervalId\<close>.
\<close>

record 'a pollingHook = "('a, bool) hookState" +
  intervals :: "(nat \<times> timer) list"
  nextIntervalId :: nat
  poll_effect :: "((string \<times> number option) \<times> nat \<times> nat option) option"
  poll_mounted :: bool

definition usePollingFetch_init :: "'a pollingHook" where
  "usePollingFetch_init =
     \<lparr>data = None, isLoading = True, error = False, controllers = [], attempts = [],
      intervals = [], nextIntervalId = 1, poll_effect = None, poll_mounted = True\<rparr>"

subsection \<open>\<open>fetchData\<close>, cut at its two awaits\<close>

definition usePollingFetch_fetchData :: "string \<Rightarrow> nat \<Rightarrow> 'a pollingHook \<Rightarrow> 'a pollingHook" where
  "usePollingFetch_fetchData url c h =
     h\<lparr>isLoading := True, error := False,
       attempts := attempts h @ [new_attempt url c]\<rparr>"

definition usePollingFetch_try_response ::
  "fetched settled \<Rightarrow> 'a pollingHook \<Rightarrow> thrown + 'a pollingHook" where
  "usePollingFetch_try_response r h =
     (case r of
        Rejected err \<Rightarrow> Inl err
      | Fulfilled response \<Rightarrow>
          (case response_ok response of
             Inl err \<Rightarrow> Inl err
           | Inr is_ok \<Rightarrow>
               if \<not> is_ok
               then Inl (JsError ''Error'' (''HTTP error! status: '' @ response_status response))
               else Inr h))"

definition usePollingFetch_try_result ::
  "'a settled \<Rightarrow> 'a pollingHook \<Rightarrow> thrown + 'a pollingHook" where
  "usePollingFetch_try_result r h =
     (case r of
        Rejected err \<Rightarrow> Inl err
      | Fulfilled result \<Rightarrow> Inr (h\<lparr>data := Some result, isLoading := False\<rparr>))"

definition usePollingFetch_catch :: "thrown \<Rightarrow> 'a pollingHook \<Rightarrow> thrown + 'a pollingHook" where
  "usePollingFetch_catch err h =
     (if instanceofError err \<and> err_name err = ''AbortError''
      then Inr h
      else Inr (h\<lparr>error := True, isLoading := False\<rparr>))"

definition usePollingFetch_on_response ::
  "fetched settled \<Rightarrow> 'a pollingHook \<Rightarrow> thrown + 'a pollingHook" where
  "usePollingFetch_on_response r h =
     (case usePollingFetch_try_response r h of
        Inl err \<Rightarrow> usePollingFetch_catch err h
      | Inr h' \<Rightarrow> Inr h')"

definition usePollingFetch_on_result ::
  "'a settled \<Rightarrow> 'a pollingHook \<Rightarrow> thrown + 'a pollingHook" where
  "usePollingFetch_on_result r h =
     (case usePollingFetch_try_result r h of
        Inl err \<Rightarrow> usePollingFetch_catch err h
      | Inr h' \<Rightarrow> Inr h')"

subsection \<open>Timers, the effect and one render\<close>

text \<open>\<open>setInterval\<close> registers a timer and returns its id; \<open>clearInterval\<close> removes it.\<close>

definition setInterval :: "number \<Rightarrow> string \<Rightarrow> nat \<Rightarrow> 'a pollingHook \<Rightarrow> nat \<times> 'a pollingHook" where
  "setInterval timeout url c h =
     (nextIntervalId h,
      h\<lparr>intervals := intervals h @
           [(nextIntervalId h,
             \<lparr>t_period = timer_period timeout, t_left = timer_period timeout,
              t_url = url, t_signal = c\<rparr>)],
        nextIntervalId := nextIntervalId h + 1\<rparr>)"

definition clearInterval :: "nat \<Rightarrow> 'a pollingHook \<Rightarrow> 'a pollingHook" where
  "clearInterval tid h = h\<lparr>intervals := filter (\<lambda>(i, t). i \<noteq> tid) (intervals h)\<rparr>"

text \<open>
  The effect body: a new AbortController, the initial \<open>fetchData()\<close>, and the timer when
  \<open>interval && interval > 0\<close>.
\<close>

definition usePollingFetch_effect ::
  "string \<times> number option \<Rightarrow> 'a pollingHook \<Rightarrow> 'a pollingHook" where
  "usePollingFetch_effect deps h =
     (let url = fst deps;
          c = length (controllers h);
          h1 = usePollingFetch_fetchData url c (h\<lparr>controllers := controllers h @ [False]\<rparr>)
      in case snd deps of
           None \<Rightarrow> h1\<lparr>poll_effect := Some (deps, c, None)\<rparr>
         | Some interval \<Rightarrow>
             if truthy interval \<and> greater_than_zero interval
             then
               let (tid, h2) = setInterval interval url c h1
               in h2\<lparr>poll_effect := Some (deps, c, Some tid)\<rparr>
             else h1\<lparr>poll_effect := Some (deps, c, None)\<rparr>)"

text \<open>The cleanup: \<open>abortController.abort()\<close>, then \<open>if (intervalId) clearInterval(intervalId)\<close>.\<close>

definition usePollingFetch_cleanup :: "nat \<times> nat option \<Rightarrow> 'a pollingHook \<Rightarrow> 'a pollingHook" where
  "usePollingFetch_cleanup cl h =
     (let h1 = h\<lparr>controllers := (controllers h)[fst cl := True]\<rparr>
      in case snd cl of
           None \<Rightarrow> h1
         | Some tid \<Rightarrow> if tid \<noteq> 0 then clearInterval tid h1 else h1)"

text \<open>One render with the arguments \<open>url\<close> and \<open>interval\<close>, and its commit.\<close>

definition usePollingFetch :: "string \<Rightarrow> number option \<Rightarrow> 'a pollingHook \<Rightarrow> 'a pollingHook" where
  "usePollingFetch url interval h =
     (let deps = (url, interval)
      in case poll_effect h of
           None \<Rightarrow> usePollingFetch_effect deps h
         | Some (d, cl) \<Rightarrow>
             if d = deps then h
             else usePollingFetch_effect deps (usePollingFetch_cleanup cl h))"

definition usePollingFetch_unmount :: "'a pollingHook \<Rightarrow> 'a pollingHook" where
  "usePollingFetch_unmount h =
     (case poll_effect h of
        None \<Rightarrow> h\<lparr>poll_mounted := False\<rparr>
      | Some (d, cl) \<Rightarrow> (usePollingFetch_cleanup cl h)\<lparr>poll_mounted := False, poll_effect := None\<rparr>)"

text \<open>
  One millisecond passes: every active timer counts down, and a timer that reaches zero
  runs its callback, one more \<open>fetchData()\<close> of its effect run, and starts over.
\<close>

definition due :: "timer \<Rightarrow> bool" where
  "due t = (t_left t \<le> 1)"

definition timer_tick :: "timer \<Rightarrow> timer" where
  "timer_tick t = (if due t then t\<lparr>t_left := t_period t\<rparr> else t\<lparr>t_left := t_left t - 1\<rparr>)"

definition fire :: "'a pollingHook \<Rightarrow> nat \<times> timer \<Rightarrow> 'a pollingHook" where
  "fire h it = (if due (snd it) then usePollingFetch_fetchData (t_url (snd it)) (t_signal (snd it)) h else h)"

definition elapse :: "'a pollingHook \<Rightarrow> 'a pollingHook" where
  "elapse h =
     foldl fire (h\<lparr>intervals := map (\<lambda>(i, t). (i, timer_tick t)) (intervals h)\<rparr>) (intervals h)"

subsection \<open>Events of one hook instance\<close>

datatype 'a poll_event =
    PollRender string "number option"
  | PollUnmount
  | Elapse
  | PollFetchSettles nat "nat settled"
  | PollJsonSettles nat "'a settled"

definition poll_fetch_settles :: "nat \<Rightarrow> nat settled \<Rightarrow> 'a pollingHook \<Rightarrow> 'a pollingHook" where
  "poll_fetch_settles i raw h =
     (if awaits h i AwaitFetch
      then
        let r = received_response h i raw;
            next = (case usePollingFetch_try_response r h of Inl err \<Rightarrow> Over | Inr h' \<Rightarrow> AwaitJson)
        in (case usePollingFetch_on_response r h of
              Inl err \<Rightarrow> h\<lparr>attempts := set_phase i Over (attempts h)\<rparr>
            | Inr h' \<Rightarrow> h'\<lparr>attempts := set_phase i next (attempts h')\<rparr>)
      else h)"

definition poll_json_settles :: "nat \<Rightarrow> 'a settled \<Rightarrow> 'a pollingHook \<Rightarrow> 'a pollingHook" where
  "poll_json_settles i raw h =
     (if awaits h i AwaitJson
      then
        let r = received_result h i raw
        in (case usePollingFetch_on_result r h of
              Inl err \<Rightarrow> h\<lparr>attempts := set_phase i Over (attempts h)\<rparr>
            | Inr h' \<Rightarrow> h'\<lparr>attempts := set_phase i Over (attempts h')\<rparr>)
      else h)"

fun poll_step :: "'a pollingHook \<Rightarrow> 'a poll_event \<Rightarrow> 'a pollingHook" where
  "poll_step h (PollRender url interval) =
     (if poll_mounted h then usePollingFetch url interval h else h)"
| "poll_step h PollUnmount = (if poll_mounted h then usePollingFetch_unmount h else h)"
| "poll_step h Elapse = elapse h"
| "poll_step h (PollFetchSettles i raw) = poll_fetch_settles i raw h"
| "poll_step h (PollJsonSettles i raw) = poll_json_settles i raw h"

definition poll_run :: "'a pollingHook \<Rightarrow> 'a poll_event list \<Rightarrow> 'a pollingHook" where
  "poll_run h es = foldl poll_step h es"

text \<open>
  How often a timer set by \<open>usePollingFetch(url, interval)\<close> fires within \<open>n\<close> milliseconds
  of the effect run: never when \<open>interval && interval > 0\<close> fails.
\<close>

definition polls :: "number option \<Rightarrow> bool" where
  "polls interval =
     (case interval of
        None \<Rightarrow> False
      | Some x \<Rightarrow> truthy x \<and> greater_than_zero x)"

definition firings :: "number option \<Rightarrow> nat \<Rightarrow> nat" where
  "firings interval n =
     (case interval of
        None \<Rightarrow> 0
      | Some x \<Rightarrow> if truthy x \<and> greater_than_zero x then n div timer_period x else 0)"

text \<open>Whether a render with these arguments runs the effect.\<close>

definition deps_changed :: "'a pollingHook \<Rightarrow> string \<Rightarrow> number option \<Rightarrow> bool" where
  "deps_changed h url interval =
     (case poll_effect h of None \<Rightarrow> True | Some (d, cl) \<Rightarrow> d \<noteq> (url, interval))"

text \<open>The number of milliseconds that pass in a list of events.\<close>

definition elapsed :: "'a poll_event list \<Rightarrow> nat" where
  "elapsed es = length (filter (\<lambda>e. e = Elapse) es)"

section \<open>Well-formed hook states\<close>

text \<open>
  What holds of every state that \<open>useGridData\<close> reaches: each effect run made one controller
  and one attempt; every controller but the newest has been aborted; the newest is live
  exactly while an effect is committed, and the committed trigger is not ahead of the
  current one.
\<close>

definition grid_inv :: "'a gridHook \<Rightarrow> bool" where
  "grid_inv h =
     (length (attempts h) = length (controllers h)
      \<and> (\<forall>i < length (attempts h). a_signal (attempts h ! i) = i)
      \<and> (\<forall>c. Suc c < length (controllers h) \<longrightarrow> controllers h ! c)
      \<and> (case effect h of
            None \<Rightarrow> (\<forall>c < length (controllers h). controllers h ! c)
                     \<and> (mounted h \<longrightarrow> renders h = 0)
          | Some (d, c) \<Rightarrow>
              mounted h \<and> snd d \<le> refetchTrigger h \<and> Suc c = length (controllers h)
              \<and> \<not> controllers h ! c))"

text \<open>
  What holds of every state that \<open>usePollingFetch\<close> reaches: every controller but the newest
  has been aborted; while an effect is committed its controller is live and the only
  timer, if any, is the one of that effect run.
\<close>

definition poll_timer_ok :: "string \<Rightarrow> number option \<Rightarrow> nat \<Rightarrow> nat option \<Rightarrow> (nat \<times> timer) list \<Rightarrow> bool" where
  "poll_timer_ok url interval c tid ts =
     (case tid of
        None \<Rightarrow> ts = [] \<and> \<not> polls interval
      | Some i \<Rightarrow>
          polls interval \<and> i \<noteq> 0
          \<and> (case ts of
                [(j, t)] \<Rightarrow>
                  j = i
                  \<and> t_period t = (case interval of None \<Rightarrow> 1 | Some x \<Rightarrow> timer_period x)
                  \<and> 1 \<le> t_left t \<and> t_left t \<le> t_period t
                  \<and> t_url t = url \<and> t_signal t = c
              | _ \<Rightarrow> False))"

definition poll_inv :: "'a pollingHook \<Rightarrow> bool" where
  "poll_inv h =
     (0 < nextIntervalId h
      \<and> (\<forall>c. Suc c < length (controllers h) \<longrightarrow> controllers h ! c)
      \<and> (\<forall>i < length (attempts h). a_signal (attempts h ! i) < length (controllers h))
      \<and> (case poll_effect h of
            None \<Rightarrow> intervals h = [] \<and> (\<forall>c < length (controllers h). controllers h ! c)
          | Some (d, c, tid) \<Rightarrow>
              poll_mounted h \<and> Suc c = length (controllers h) \<and> \<not> controllers h ! c
              \<and> poll_timer_ok (fst d) (snd d) c tid (intervals h)))"

text \<open>The events that are neither a render nor the unmount: time passing and promises settling.\<close>

fun background :: "'a poll_event \<Rightarrow> bool" where
  "background (PollRender url interval) = False"
| "background PollUnmount = False"
| "background Elapse = True"
| "background (PollFetchSettles i raw) = True"
| "background (PollJsonSettles i raw) = True"

text \<open>An event in which \<open>response.json()\<close> is fulfilled, the only way to \<open>setData\<close>.\<close>

fun delivers_data :: "'a grid_event \<Rightarrow> bool" where
  "delivers_data (JsonSettles i (Fulfilled v)) = True"
| "delivers_data e = False"

fun poll_delivers_data :: "'a poll_event \<Rightarrow> bool" where
  "poll_delivers_data (PollJsonSettles i (Fulfilled v)) = True"
| "poll_delivers_data e = False"

section \<open>Basic facts\<close>

lemma decimal_500: "decimal 500 = ''500''"
  by (simp add: decimal.simps [of 500] decimal.simps [of 50] decimal.simps [of 5] digit_def)

lemma set_phase_length [simp]: "length (set_phase i p as) = length as"
  by (simp add: set_phase_def)

lemma set_phase_signal [simp]:
  "j < length as \<Longrightarrow> a_signal (set_phase i p as ! j) = a_signal (as ! j)"
  by (cases "i = j") (simp_all add: set_phase_def)

lemma set_phase_url [simp]:
  "j < length as \<Longrightarrow> a_url (set_phase i p as ! j) = a_url (as ! j)"
  by (cases "i = j") (simp_all add: set_phase_def)

lemma set_phase_targets [simp]:
  "map (\<lambda>a. (a_url a, a_signal a)) (set_phase i p as) = map (\<lambda>a. (a_url a, a_signal a)) as"
  by (rule nth_equalityI) simp_all

lemma mock_response_widgets: "mock_response ''/api/products/widgets'' = Some (Fulfilled (Response 200))"
  by (simp add: mock_response_def mock_handler_def mockApiEndpoints_def
      mockApiEndpoints_polling_def Object_prototype_def)

lemma mock_response_gadgets: "mock_response ''/api/products/gadgets'' = Some (Fulfilled (Response 200))"
  by (simp add: mock_response_def mock_handler_def mockApiEndpoints_def
      mockApiEndpoints_polling_def Object_prototype_def)

lemma mock_response_posts: "mock_response ''/api/posts'' = Some (Fulfilled (Response 200))"
  by (simp add: mock_response_def mock_handler_def mockApiEndpoints_def
      mockApiEndpoints_polling_def Object_prototype_def)

lemma mock_response_users: "mock_response ''/api/users'' = Some (Fulfilled (Response 200))"
  by (simp add: mock_response_def mock_handler_def mockApiEndpoints_def
      mockApiEndpoints_polling_def Object_prototype_def)

lemma mock_response_error: "mock_response ''/api/error'' = Some (Fulfilled (Response 500))"
  by (simp add: mock_response_def mock_handler_def mockApiEndpoints_def
      mockApiEndpoints_polling_def Object_prototype_def)

lemma mock_response_example: "mock_response ''https://api.example.com/posts'' = None"
  by (simp add: mock_response_def mock_handler_def mockApiEndpoints_def
      mockApiEndpoints_polling_def Object_prototype_def)

text \<open>
  A URL that is a property name of \<open>Object.prototype\<close> is served by the wrapper as well:
  the hook receives what the inherited function returns, which has no status, and ends in
  the error state with the status \<open>undefined\<close> in the message.
\<close>

lemma mock_response_toString: "mock_response ''toString'' = Some (Fulfilled NoResponse)"
  by (simp add: mock_response_def mock_handler_def mockApiEndpoints_def
      mockApiEndpoints_polling_def Object_prototype_def)

lemma inherited_name_ends_in_error:
  "window_fetch ''toString'' ab raw = Fulfilled NoResponse
   \<and> useGridData_on_response (Fulfilled NoResponse) h
       = Inr (h\<lparr>error := Some ''HTTP error! status: undefined'', isLoading := False\<rparr>)
   \<and> usePollingFetch_on_response (Fulfilled NoResponse) g
       = Inr (g\<lparr>error := True, isLoading := False\<rparr>)"
  by (simp add: window_fetch_def mock_response_toString
      useGridData_on_response_def useGridData_try_response_def useGridData_catch_def
      usePollingFetch_on_response_def usePollingFetch_try_response_def
      usePollingFetch_catch_def response_ok_def response_status_def instanceofError_def)

section \<open>Unit A: what one settled promise does\<close>

lemma grid_on_response_cases:
  "useGridData_on_response r h = Inr h
   \<or> (\<exists>m. useGridData_on_response r h = Inr (h\<lparr>error := Some m, isLoading := False\<rparr>))"
  by (auto simp: useGridData_on_response_def useGridData_try_response_def useGridData_catch_def
      Let_def split: settled.splits sum.splits)

lemma grid_on_result_cases:
  "useGridData_on_result r h = Inr h
   \<or> (\<exists>m. useGridData_on_result r h = Inr (h\<lparr>error := Some m, isLoading := False\<rparr>))
   \<or> (\<exists>v. r = Fulfilled v
          \<and> useGridData_on_result r h = Inr (h\<lparr>data := Some v, isLoading := False\<rparr>))"
  by (auto simp: useGridData_on_result_def useGridData_try_result_def useGridData_catch_def
      Let_def split: settled.splits)

lemma grid_on_response_abort: "useGridData_on_response (Rejected AbortError) h = Inr h"
  by (simp add: useGridData_on_response_def useGridData_try_response_def useGridData_catch_def
      AbortError_def instanceofError_def)

lemma grid_on_result_abort: "useGridData_on_result (Rejected AbortError) h = Inr h"
  by (simp add: useGridData_on_result_def useGridData_try_result_def useGridData_catch_def
      AbortError_def instanceofError_def)

section \<open>Unit A: every reachable state is well formed\<close>

lemma grid_inv_init: "grid_inv useGridData_init"
  by (simp add: grid_inv_def useGridData_init_def)

lemma grid_inv_fetch_settles: "grid_inv h \<Longrightarrow> grid_inv (grid_fetch_settles i raw h)"
  using grid_on_response_cases [of "received_response h i raw" h]
  by (auto simp: grid_fetch_settles_def grid_inv_def Let_def split: option.splits)

lemma grid_inv_json_settles: "grid_inv h \<Longrightarrow> grid_inv (grid_json_settles i raw h)"
  using grid_on_result_cases [of "received_result h i raw" h]
  by (auto simp: grid_json_settles_def grid_inv_def Let_def split: option.splits)

lemma grid_inv_render: "grid_inv h \<Longrightarrow> mounted h \<Longrightarrow> grid_inv (useGridData k h)"
  by (auto simp: grid_inv_def useGridData_def useGridData_effect_def useGridData_cleanup_def
      useGridData_fetchData_def new_attempt_def Let_def nth_append nth_list_update less_Suc_eq
      split: option.splits)

lemma grid_inv_refetch: "grid_inv h \<Longrightarrow> grid_inv (grid_step h Refetch)"
  by (auto simp: grid_inv_def useGridData_def useGridData_effect_def useGridData_cleanup_def
      useGridData_fetchData_def new_attempt_def Let_def nth_append nth_list_update less_Suc_eq
      refetchData_def
      split: option.splits)

lemma grid_inv_unmount: "grid_inv h \<Longrightarrow> mounted h \<Longrightarrow> grid_inv (useGridData_unmount h)"
  by (auto simp: grid_inv_def useGridData_unmount_def useGridData_cleanup_def
      nth_list_update less_Suc_eq split: option.splits)

lemma grid_inv_step: "grid_inv h \<Longrightarrow> grid_inv (grid_step h e)"
  by (cases e) (simp_all add: grid_inv_render grid_inv_refetch grid_inv_unmount
      grid_inv_fetch_settles grid_inv_json_settles del: grid_step.simps(2))

lemma grid_run_Nil [simp]: "grid_run h [] = h"
  by (simp add: grid_run_def)

lemma grid_run_Cons [simp]: "grid_run h (e # es) = grid_run (grid_step h e) es"
  by (simp add: grid_run_def)

lemma grid_inv_run: "grid_inv h \<Longrightarrow> grid_inv (grid_run h es)"
  by (induction es arbitrary: h) (simp_all add: grid_inv_step)

lemma grid_inv_reachable: "grid_inv (grid_run useGridData_init es)"
  by (rule grid_inv_run) (rule grid_inv_init)

section \<open>Unit B: what one settled promise does\<close>

lemma poll_on_response_cases:
  "usePollingFetch_on_response r h = Inr h
   \<or> usePollingFetch_on_response r h = Inr (h\<lparr>error := True, isLoading := False\<rparr>)"
  by (auto simp: usePollingFetch_on_response_def usePollingFetch_try_response_def
      usePollingFetch_catch_def split: settled.splits sum.splits)

lemma poll_on_result_cases:
  "usePollingFetch_on_result r h = Inr h
   \<or> usePollingFetch_on_result r h = Inr (h\<lparr>error := True, isLoading := False\<rparr>)
   \<or> (\<exists>v. r = Fulfilled v
          \<and> usePollingFetch_on_result r h = Inr (h\<lparr>data := Some v, isLoading := False\<rparr>))"
  by (auto simp: usePollingFetch_on_result_def usePollingFetch_try_result_def
      usePollingFetch_catch_def split: settled.splits)

section \<open>Unit B: timers\<close>

lemma poll_run_Nil [simp]: "poll_run h [] = h"
  by (simp add: poll_run_def)

lemma poll_run_Cons [simp]: "poll_run h (e # es) = poll_run (poll_step h e) es"
  by (simp add: poll_run_def)


lemma elapsed_Nil [simp]: "elapsed [] = 0"
  by (simp add: elapsed_def)

lemma elapsed_Cons [simp]: "elapsed (e # es) = (if e = Elapse then Suc (elapsed es) else elapsed es)"
  by (simp add: elapsed_def)

lemma elapsed_replicate [simp]: "elapsed (replicate n Elapse) = n"
  by (induction n) simp_all

lemma elapse_no_timer: "intervals h = [] \<Longrightarrow> elapse h = h"
  by (simp add: elapse_def)

lemma elapse_one_timer:
  assumes "intervals h = [(i, t)]"
  shows "elapse h =
           (if due t
            then usePollingFetch_fetchData (t_url t) (t_signal t)
                   (h\<lparr>intervals := [(i, t\<lparr>t_left := t_period t\<rparr>)]\<rparr>)
            else h\<lparr>intervals := [(i, t\<lparr>t_left := t_left t - 1\<rparr>)]\<rparr>)"
  using assms by (simp add: elapse_def fire_def timer_tick_def)


section \<open>Unit B: every reachable state is well formed\<close>

lemma poll_timer_ok_None:
  "poll_timer_ok u iv c None ts \<longleftrightarrow> ts = [] \<and> \<not> polls iv"
  by (simp add: poll_timer_ok_def)

lemma poll_timer_ok_Some:
  "poll_timer_ok u iv c (Some i) ts \<longleftrightarrow>
     (\<exists>x t. iv = Some x \<and> polls iv \<and> i \<noteq> 0 \<and> ts = [(i, t)] \<and> t_period t = timer_period x
            \<and> 1 \<le> t_left t \<and> t_left t \<le> t_period t \<and> t_url t = u \<and> t_signal t = c)"
proof (cases iv)
  case None
  then show ?thesis by (simp add: poll_timer_ok_def polls_def)
next
  case (Some x)
  show ?thesis
  proof (cases ts)
    case Nil
    with Some show ?thesis by (simp add: poll_timer_ok_def)
  next
    case (Cons it its)
    obtain j t where it: "it = (j, t)" by (cases it)
    show ?thesis
    proof (cases its)
      case Nil
      with Some Cons it show ?thesis by (auto simp: poll_timer_ok_def)
    next
      case (Cons a list)
      with Some \<open>ts = it # its\<close> it show ?thesis by (simp add: poll_timer_ok_def)
    qed
  qed
qed

lemma poll_inv_timers:
  assumes "poll_inv h"
  shows "intervals h = [] \<or> (\<exists>i t. intervals h = [(i, t)])"
proof (cases "poll_effect h")
  case None
  with assms show ?thesis by (simp add: poll_inv_def)
next
  case (Some p)
  obtain d c tid where p: "p = (d, c, tid)" by (cases p)
  from assms Some p have ok: "poll_timer_ok (fst d) (snd d) c tid (intervals h)"
    by (simp add: poll_inv_def)
  show ?thesis
  proof (cases tid)
    case None
    with ok show ?thesis by (simp add: poll_timer_ok_None)
  next
    case (Some i)
    with ok show ?thesis by (auto simp: poll_timer_ok_Some)
  qed
qed

lemma poll_inv_init: "poll_inv usePollingFetch_init"
  by (simp add: poll_inv_def usePollingFetch_init_def)

lemma poll_inv_fetch_settles: "poll_inv h \<Longrightarrow> poll_inv (poll_fetch_settles i raw h)"
  using poll_on_response_cases [of "received_response h i raw" h]
  by (auto simp: poll_fetch_settles_def poll_inv_def Let_def split: option.splits)

lemma poll_inv_json_settles: "poll_inv h \<Longrightarrow> poll_inv (poll_json_settles i raw h)"
  using poll_on_result_cases [of "received_result h i raw" h]
  by (auto simp: poll_json_settles_def poll_inv_def Let_def split: option.splits)

lemma poll_inv_effect:
  assumes "\<forall>c < length (controllers h). controllers h ! c"
    and "\<forall>i < length (attempts h). a_signal (attempts h ! i) < length (controllers h)"
    and "intervals h = []" and "poll_mounted h" and "0 < nextIntervalId h"
  shows "poll_inv (usePollingFetch_effect deps h)"
  using assms
  by (cases deps)
     (auto simp: poll_inv_def usePollingFetch_effect_def usePollingFetch_fetchData_def
      new_attempt_def setInterval_def poll_timer_ok_None poll_timer_ok_Some polls_def
      timer_period_def Let_def nth_append less_Suc_eq split: option.splits)

lemma poll_cleanup_props:
  assumes "poll_inv h" and "poll_effect h = Some (d, cl)"
  shows "\<forall>c < length (controllers (usePollingFetch_cleanup cl h)).
           controllers (usePollingFetch_cleanup cl h) ! c"
    and "attempts (usePollingFetch_cleanup cl h) = attempts h"
    and "length (controllers (usePollingFetch_cleanup cl h)) = length (controllers h)"
    and "intervals (usePollingFetch_cleanup cl h) = []"
    and "poll_mounted (usePollingFetch_cleanup cl h) = poll_mounted h"
    and "nextIntervalId (usePollingFetch_cleanup cl h) = nextIntervalId h"
  using assms
  by (cases cl; auto simp: poll_inv_def usePollingFetch_cleanup_def clearInterval_def
      poll_timer_ok_None poll_timer_ok_Some Let_def nth_list_update less_Suc_eq
      split: option.splits)+


lemma poll_inv_render: "poll_inv h \<Longrightarrow> poll_mounted h \<Longrightarrow> poll_inv (usePollingFetch url iv h)"
proof (cases "poll_effect h")
  case None
  assume "poll_inv h" and "poll_mounted h"
  with None show ?thesis
    by (simp add: usePollingFetch_def Let_def) (rule poll_inv_effect; simp add: poll_inv_def)
next
  case (Some p)
  assume inv: "poll_inv h" and m: "poll_mounted h"
  obtain d cl where p: "p = (d, cl)" by (cases p)
  note cp = poll_cleanup_props [OF inv Some [unfolded p]]
  have "poll_inv (usePollingFetch_effect (url, iv) (usePollingFetch_cleanup cl h))"
    using cp m inv by (intro poll_inv_effect) (simp_all add: poll_inv_def)
  then show ?thesis
    using Some p inv by (simp add: usePollingFetch_def Let_def)
qed

lemma poll_inv_unmount: "poll_inv h \<Longrightarrow> poll_inv (usePollingFetch_unmount h)"
proof (cases "poll_effect h")
  case None
  assume "poll_inv h"
  with None show ?thesis by (simp add: usePollingFetch_unmount_def poll_inv_def)
next
  case (Some p)
  assume inv: "poll_inv h"
  obtain d cl where p: "p = (d, cl)" by (cases p)
  note cp = poll_cleanup_props [OF inv Some [unfolded p]]
  show ?thesis
    using cp inv Some p by (simp add: usePollingFetch_unmount_def poll_inv_def)
qed

lemma poll_inv_elapse: "poll_inv h \<Longrightarrow> poll_inv (elapse h)"
proof -
  assume inv: "poll_inv h"
  from poll_inv_timers [OF inv] show ?thesis
  proof
    assume "intervals h = []"
    with inv show ?thesis by (simp add: elapse_no_timer)
  next
    assume "\<exists>i t. intervals h = [(i, t)]"
    then obtain i t where one: "intervals h = [(i, t)]" by blast
    obtain d c tid where eff: "poll_effect h = Some (d, c, tid)"
      using inv one by (cases "poll_effect h") (auto simp: poll_inv_def)
    from inv eff one obtain x where tid: "tid = Some i" and
      ok: "snd d = Some x" "polls (snd d)" "i \<noteq> 0" "t_period t = timer_period x"
          "1 \<le> t_left t" "t_left t \<le> t_period t" "t_url t = fst d" "t_signal t = c"
      by (cases tid) (auto simp: poll_inv_def poll_timer_ok_None poll_timer_ok_Some)
    show ?thesis
      using inv eff tid ok
      by (auto simp: elapse_one_timer [OF one] poll_inv_def poll_timer_ok_Some due_def
          usePollingFetch_fetchData_def new_attempt_def nth_append)
  qed
qed

lemma poll_inv_step: "poll_inv h \<Longrightarrow> poll_inv (poll_step h e)"
  by (cases e) (simp_all add: poll_inv_render poll_inv_unmount poll_inv_elapse
      poll_inv_fetch_settles poll_inv_json_settles)

lemma poll_inv_run: "poll_inv h \<Longrightarrow> poll_inv (poll_run h es)"
  by (induction es arbitrary: h) (simp_all add: poll_inv_step)

lemma poll_inv_reachable: "poll_inv (poll_run usePollingFetch_init es)"
  by (rule poll_inv_run) (rule poll_inv_init)

section \<open>Unit B: what time and settling promises leave alone\<close>

lemma fire_all_frame:
  "controllers (foldl fire g ts) = controllers g
   \<and> intervals (foldl fire g ts) = intervals g
   \<and> poll_effect (foldl fire g ts) = poll_effect g
   \<and> poll_mounted (foldl fire g ts) = poll_mounted g"
  by (induction ts arbitrary: g) (simp_all add: fire_def usePollingFetch_fetchData_def)

lemma elapse_frame:
  "controllers (elapse h) = controllers h \<and> poll_effect (elapse h) = poll_effect h
   \<and> poll_mounted (elapse h) = poll_mounted h"
  by (simp add: elapse_def fire_all_frame)

lemma poll_fetch_settles_frame:
  "controllers (poll_fetch_settles i raw h) = controllers h
   \<and> poll_effect (poll_fetch_settles i raw h) = poll_effect h
   \<and> poll_mounted (poll_fetch_settles i raw h) = poll_mounted h
   \<and> intervals (poll_fetch_settles i raw h) = intervals h
   \<and> targets (poll_fetch_settles i raw h) = targets h"
  using poll_on_response_cases [of "received_response h i raw" h]
  by (auto simp: poll_fetch_settles_def targets_def Let_def)

lemma poll_json_settles_frame:
  "controllers (poll_json_settles i raw h) = controllers h
   \<and> poll_effect (poll_json_settles i raw h) = poll_effect h
   \<and> poll_mounted (poll_json_settles i raw h) = poll_mounted h
   \<and> intervals (poll_json_settles i raw h) = intervals h
   \<and> targets (poll_json_settles i raw h) = targets h"
  using poll_on_result_cases [of "received_result h i raw" h]
  by (auto simp: poll_json_settles_def targets_def Let_def)

lemma background_step_frame:
  assumes "background e"
  shows "controllers (poll_step h e) = controllers h
         \<and> poll_effect (poll_step h e) = poll_effect h
         \<and> poll_mounted (poll_step h e) = poll_mounted h"
  using assms
  by (cases e) (simp_all add: elapse_frame poll_fetch_settles_frame poll_json_settles_frame)

lemma background_run_frame:
  assumes "\<forall>e \<in> set es. background e"
  shows "controllers (poll_run h es) = controllers h
         \<and> poll_effect (poll_run h es) = poll_effect h
         \<and> poll_mounted (poll_run h es) = poll_mounted h"
  using assms
proof (induction es arbitrary: h)
  case Nil
  then show ?case by simp
next
  case (Cons e es)
  then have "background e" and rest: "\<forall>e \<in> set es. background e" by simp_all
  from background_step_frame [OF \<open>background e\<close>, of h] Cons.IH [OF rest, of "poll_step h e"]
  show ?case by simp
qed

text \<open>With no timer registered, no attempt is ever added.\<close>

lemma background_run_no_timer:
  assumes "\<forall>e \<in> set es. background e" and "intervals h = []"
  shows "targets (poll_run h es) = targets h \<and> intervals (poll_run h es) = []"
  using assms
proof (induction es arbitrary: h)
  case Nil
  then show ?case by simp
next
  case (Cons e es)
  then have bg: "background e" and rest: "\<forall>e \<in> set es. background e" by simp_all
  have "targets (poll_step h e) = targets h \<and> intervals (poll_step h e) = []"
    using bg Cons.prems(2)
    by (cases e) (simp_all add: elapse_no_timer poll_fetch_settles_frame poll_json_settles_frame)
  with Cons.IH [OF rest, of "poll_step h e"] show ?case by simp
qed

text \<open>
  With one timer of period \<open>T\<close> and \<open>l\<close> milliseconds left, \<open>n\<close> milliseconds add
  \<open>(n + (T - l)) div T\<close> attempts, each for the timer's URL and controller.
\<close>

lemma background_run_one_timer:
  assumes "\<forall>e \<in> set es. background e" and "intervals h = [(i, t)]"
    and "1 \<le> t_left t" and "t_left t \<le> t_period t"
  shows "targets (poll_run h es)
           = targets h @ replicate ((elapsed es + (t_period t - t_left t)) div t_period t)
                           (t_url t, t_signal t)"
  using assms
proof (induction es arbitrary: h t)
  case Nil
  then show ?case by simp
next
  case (Cons e es)
  then have bg: "background e" and rest: "\<forall>e \<in> set es. background e" by simp_all
  note one = Cons.prems(2) and lo = Cons.prems(3) and hi = Cons.prems(4)
  have T: "0 < t_period t" using lo hi by simp
  show ?case
  proof (cases "e = Elapse")
    case False
    then have "targets (poll_step h e) = targets h \<and> intervals (poll_step h e) = [(i, t)]"
      using bg one
      by (cases e) (simp_all add: poll_fetch_settles_frame poll_json_settles_frame)
    with Cons.IH [OF rest _ lo hi, of "poll_step h e"] False show ?thesis by simp
  next
    case True
    show ?thesis
    proof (cases "t_left t = 1")
      case l1: True
      let ?t' = "t\<lparr>t_left := t_period t\<rparr>"
      have st: "intervals (elapse h) = [(i, ?t')]"
        "targets (elapse h) = targets h @ [(t_url t, t_signal t)]"
        using l1 by (simp_all add: elapse_one_timer [OF one] due_def targets_def
            usePollingFetch_fetchData_def new_attempt_def)
      have ih: "targets (poll_run (elapse h) es)
                  = targets (elapse h) @ replicate (elapsed es div t_period t) (t_url t, t_signal t)"
        using Cons.IH [OF rest st(1)] T by simp
      have "(Suc (elapsed es) + (t_period t - 1)) div t_period t
              = Suc (elapsed es div t_period t)"
        using T by (simp add: div_add_self2)
      then show ?thesis
        using True l1 ih st(2) by (simp add: replicate_app_Cons_same)
    next
      case False
      then have l2: "2 \<le> t_left t" using lo by simp
      let ?t' = "t\<lparr>t_left := t_left t - 1\<rparr>"
      have st: "intervals (elapse h) = [(i, ?t')]" "targets (elapse h) = targets h"
        using l2 by (simp_all add: elapse_one_timer [OF one] due_def targets_def)
      have ih: "targets (poll_run (elapse h) es)
                  = targets (elapse h)
                    @ replicate ((elapsed es + (t_period t - (t_left t - 1))) div t_period t)
                        (t_url t, t_signal t)"
        using Cons.IH [OF rest st(1)] l2 hi by simp
      have "elapsed es + (t_period t - (t_left t - 1)) = Suc (elapsed es) + (t_period t - t_left t)"
        using l2 hi by simp
      then show ?thesis
        using True ih st(2) by simp
    qed
  qed
qed

section \<open>Unit B: one effect run\<close>

lemma poll_effect_run:
  assumes "intervals g = []"
  shows "targets (usePollingFetch_effect (url, iv) g) = targets g @ [(url, length (controllers g))]"
    and "controllers (usePollingFetch_effect (url, iv) g) = controllers g @ [False]"
    and "\<not> polls iv \<Longrightarrow> intervals (usePollingFetch_effect (url, iv) g) = []"
    and "iv = Some x \<Longrightarrow> polls iv \<Longrightarrow>
         intervals (usePollingFetch_effect (url, iv) g)
           = [(nextIntervalId g,
               \<lparr>t_period = timer_period x, t_left = timer_period x, t_url = url,
                t_signal = length (controllers g)\<rparr>)]"
  using assms
  by (auto simp: usePollingFetch_effect_def usePollingFetch_fetchData_def setInterval_def
      targets_def new_attempt_def polls_def Let_def split: option.splits)

section \<open>Unit B: a render that runs the effect, and the unmount\<close>

lemma poll_render_changed:
  assumes inv: "poll_inv h" and m: "poll_mounted h" and ch: "deps_changed h url iv"
  shows "targets (poll_step h (PollRender url iv)) = targets h @ [(url, length (controllers h))]"
    and "\<not> polls iv \<Longrightarrow> intervals (poll_step h (PollRender url iv)) = []"
    and "iv = Some x \<Longrightarrow> polls iv \<Longrightarrow>
         \<exists>i. intervals (poll_step h (PollRender url iv))
               = [(i, \<lparr>t_period = timer_period x, t_left = timer_period x, t_url = url,
                       t_signal = length (controllers h)\<rparr>)]"
    and "poll_effect h = Some (d, c, tid) \<Longrightarrow>
         aborted (controllers (poll_step h (PollRender url iv))) c"
proof -
  obtain g where step: "poll_step h (PollRender url iv) = usePollingFetch_effect (url, iv) g"
    and g: "intervals g = []" "targets g = targets h"
           "length (controllers g) = length (controllers h)"
           "\<forall>c < length (controllers g). controllers g ! c"
  proof (cases "poll_effect h")
    case None
    show ?thesis
    proof (rule that [of h])
      show "poll_step h (PollRender url iv) = usePollingFetch_effect (url, iv) h"
        using None m by (simp add: usePollingFetch_def)
      show "intervals h = []" "\<forall>c < length (controllers h). controllers h ! c"
        using inv None by (simp_all add: poll_inv_def)
    qed simp_all
  next
    case (Some p)
    obtain d' cl where p: "p = (d', cl)" by (cases p)
    note cp = poll_cleanup_props [OF inv Some [unfolded p]]
    show ?thesis
    proof (rule that [of "usePollingFetch_cleanup cl h"])
      show "poll_step h (PollRender url iv)
              = usePollingFetch_effect (url, iv) (usePollingFetch_cleanup cl h)"
        using Some p m ch by (simp add: usePollingFetch_def deps_changed_def)
    qed (simp_all add: cp targets_def)
  qed
  note run = poll_effect_run [OF g(1), where url = url and iv = iv]
  show "targets (poll_step h (PollRender url iv)) = targets h @ [(url, length (controllers h))]"
    unfolding step by (simp add: run(1) g)
  show "\<not> polls iv \<Longrightarrow> intervals (poll_step h (PollRender url iv)) = []"
    unfolding step by (simp add: run(3))
  show "\<exists>i. intervals (poll_step h (PollRender url iv))
               = [(i, \<lparr>t_period = timer_period x, t_left = timer_period x, t_url = url,
                       t_signal = length (controllers h)\<rparr>)]"
    if a: "iv = Some x" "polls iv"
    using run(4) [OF a] g(3) unfolding step by simp
  show "aborted (controllers (poll_step h (PollRender url iv))) c"
    if "poll_effect h = Some (d, c, tid)"
  proof -
    have "c < length (controllers h)" using inv that by (simp add: poll_inv_def)
    then show ?thesis using g(3,4) unfolding step by (simp add: run(2) aborted_def nth_append)
  qed
qed

lemma poll_unmount_props:
  assumes inv: "poll_inv h" and m: "poll_mounted h"
  shows "targets (poll_step h PollUnmount) = targets h"
    and "intervals (poll_step h PollUnmount) = []"
    and "length (controllers (poll_step h PollUnmount)) = length (controllers h)"
    and "\<forall>c < length (controllers h). controllers (poll_step h PollUnmount) ! c"
proof -
  have "targets (poll_step h PollUnmount) = targets h
        \<and> intervals (poll_step h PollUnmount) = []
        \<and> length (controllers (poll_step h PollUnmount)) = length (controllers h)
        \<and> (\<forall>c < length (controllers h). controllers (poll_step h PollUnmount) ! c)"
  proof (cases "poll_effect h")
    case None
    with inv m show ?thesis by (simp add: usePollingFetch_unmount_def poll_inv_def targets_def)
  next
    case (Some p)
    obtain d cl where p: "p = (d, cl)" by (cases p)
    note cp = poll_cleanup_props [OF inv Some [unfolded p]]
    from cp Some p m show ?thesis by (simp add: usePollingFetch_unmount_def targets_def)
  qed
  then show "targets (poll_step h PollUnmount) = targets h"
    and "intervals (poll_step h PollUnmount) = []"
    and "length (controllers (poll_step h PollUnmount)) = length (controllers h)"
    and "\<forall>c < length (controllers h). controllers (poll_step h PollUnmount) ! c"
    by simp_all
qed


section \<open>The period of a timer\<close>

text \<open>Between 1 and \<open>2^31 - 1\<close> the period is the timeout, cut to whole milliseconds.\<close>

lemma timer_period_whole:
  assumes "1 \<le> q" and "q < 2 ^ 31"
  shows "timer_period (Num q) = nat \<lfloor>q\<rfloor>"
proof -
  have lo: "1 \<le> \<lfloor>q\<rfloor>" using assms(1) by (simp add: le_floor_iff)
  have hi: "\<lfloor>q\<rfloor> < 2147483648" using assms(2) by (simp add: floor_less_iff)
  have ip: "IntegerPart q = \<lfloor>q\<rfloor>" using assms(1) by (simp add: IntegerPart_def)
  have md: "\<lfloor>q\<rfloor> mod 4294967296 = \<lfloor>q\<rfloor>" using lo hi by simp
  have c: "ConvertToInt32 (Num q) = \<lfloor>q\<rfloor>"
    using hi by (simp add: ConvertToInt32_def ip md Let_def)
  have n0: "\<not> \<lfloor>q\<rfloor> < 0" and n1: "max 1 (nat \<lfloor>q\<rfloor>) = nat \<lfloor>q\<rfloor>"
    using lo by linarith+
  show ?thesis
    unfolding timer_period_def c Let_def using n0 n1 by simp
qed

lemma timer_period_3000: "timer_period (Num 3000) = 3000"
  using timer_period_whole [of 3000] by simp

lemma timer_period_5000: "timer_period (Num 5000) = 5000"
  using timer_period_whole [of 5000] by simp


text \<open>From \<open>2^31\<close> on the timeout wraps: \<open>2^31\<close> itself becomes negative and is taken as 0.\<close>

lemma timer_period_2147483648: "timer_period (Num 2147483648) = 1"
  by (simp add: timer_period_def ConvertToInt32_def IntegerPart_def Let_def)

section \<open>Running concrete traces\<close>

lemmas grid_eval =
  useGridData_init_def useGridData_def useGridData_effect_def useGridData_cleanup_def
  useGridData_fetchData_def useGridData_unmount_def useGridData_on_response_def
  useGridData_on_result_def useGridData_try_response_def useGridData_try_result_def
  useGridData_catch_def grid_fetch_settles_def grid_json_settles_def refetchData_def
  useCallback_def

lemmas poll_eval =
  usePollingFetch_init_def usePollingFetch_def usePollingFetch_effect_def
  usePollingFetch_cleanup_def usePollingFetch_fetchData_def usePollingFetch_unmount_def
  usePollingFetch_on_response_def usePollingFetch_on_result_def
  usePollingFetch_try_response_def usePollingFetch_try_result_def usePollingFetch_catch_def
  poll_fetch_settles_def poll_json_settles_def setInterval_def clearInterval_def
  truthy_def greater_than_zero_def timer_period_3000 timer_period_5000

lemmas transport_eval =
  received_response_def received_result_def window_fetch_def response_json_def
  originalFetch_def awaits_def aborted_def new_attempt_def set_phase_def exposed_def
  ok_def instanceofError_def AbortError_def TypeError_def response_ok_def
  response_status_def Let_def
  mock_response_widgets mock_response_gadgets mock_response_posts mock_response_users
  mock_response_error mock_response_example

section \<open>Claims about the order of attempts\<close>

text \<open>
  C1. Claimed for \<open>useGridData\<close>: of the attempts issued by key changes or refetch calls only
  the most recently issued one ever mutates the result state; an earlier attempt is cancelled
  by the effect cleanup and its resolution is ignored, whichever response arrives first.
  Evaluated here on the repository's own endpoints. First, the key changes from the widgets
  endpoint (800 ms) to the gadgets endpoint (600 ms) while the first request is pending: the
  cleanup aborts the first controller, the gadgets attempt settles first and stores its
  data, and then the cancelled widgets attempt is fulfilled all the same, because the fetch
  wrapper calls the mock handler without the signal, and overwrites the data of the newer
  attempt. Second, with data on display, \<open>refetchData()\<close> is called twice, each call with
  its re-render, as by two clicks: the attempt of the first call is cancelled by the second,
  yet it stores its data and clears isLoading while the attempt of the second call is still
  pending.
\<close>

theorem stale_widgets_response_overwrites_gadgets:
  "exposed (grid_run (useGridData_init :: string gridHook)
      [Render ''/api/products/widgets'', Render ''/api/products/gadgets'',
       FetchSettles 1 (Fulfilled 200), JsonSettles 1 (Fulfilled ''gadgets'')])
     = (Some ''gadgets'', False, None)
   \<and> aborted (controllers (grid_run (useGridData_init :: string gridHook)
        [Render ''/api/products/widgets'', Render ''/api/products/gadgets'',
         FetchSettles 1 (Fulfilled 200), JsonSettles 1 (Fulfilled ''gadgets'')])) 0
   \<and> targets (grid_run (useGridData_init :: string gridHook)
        [Render ''/api/products/widgets'', Render ''/api/products/gadgets'',
         FetchSettles 1 (Fulfilled 200), JsonSettles 1 (Fulfilled ''gadgets'')])
       = [(''/api/products/widgets'', 0), (''/api/products/gadgets'', 1)]
   \<and> exposed (grid_run (useGridData_init :: string gridHook)
        [Render ''/api/products/widgets'', Render ''/api/products/gadgets'',
         FetchSettles 1 (Fulfilled 200), JsonSettles 1 (Fulfilled ''gadgets''),
         FetchSettles 0 (Fulfilled 200), JsonSettles 0 (Fulfilled ''widgets'')])
     = (Some ''widgets'', False, None)
   \<and> aborted (controllers (grid_run (useGridData_init :: string gridHook)
        [Render ''/api/products/widgets'',
         FetchSettles 0 (Fulfilled 200), JsonSettles 0 (Fulfilled ''first''),
         Refetch, Render ''/api/products/widgets'',
         Refetch, Render ''/api/products/widgets''])) 1
   \<and> exposed (grid_run (useGridData_init :: string gridHook)
        [Render ''/api/products/widgets'',
         FetchSettles 0 (Fulfilled 200), JsonSettles 0 (Fulfilled ''first''),
         Refetch, Render ''/api/products/widgets'',
         Refetch, Render ''/api/products/widgets''])
     = (Some ''first'', True, None)
   \<and> exposed (grid_run (useGridData_init :: string gridHook)
        [Render ''/api/products/widgets'',
         FetchSettles 0 (Fulfilled 200), JsonSettles 0 (Fulfilled ''first''),
         Refetch, Render ''/api/products/widgets'',
         Refetch, Render ''/api/products/widgets'',
         FetchSettles 1 (Fulfilled 200), JsonSettles 1 (Fulfilled ''second'')])
     = (Some ''second'', False, None)
   \<and> awaits (grid_run (useGridData_init :: string gridHook)
        [Render ''/api/products/widgets'',
         FetchSettles 0 (Fulfilled 200), JsonSettles 0 (Fulfilled ''first''),
         Refetch, Render ''/api/products/widgets'',
         Refetch, Render ''/api/products/widgets'',
         FetchSettles 1 (Fulfilled 200), JsonSettles 1 (Fulfilled ''second'')]) 2 AwaitFetch"
  by (simp add: grid_eval transport_eval targets_def)

text \<open>
  Behind the platform's fetch the hook is right: an attempt that is not the newest has an
  aborted signal, receives \<open>AbortError\<close> at either await and leaves the result state alone.
\<close>

lemma stale_signal_aborted:
  assumes "grid_inv h" and "Suc i < length (attempts h)"
  shows "aborted (controllers h) (a_signal (attempts h ! i))"
  using assms by (simp add: grid_inv_def aborted_def)

lemma platform_fetch_ignores_stale_attempt:
  assumes "Suc i < length (attempts (grid_run useGridData_init es))"
    and "mock_response (a_url (attempts (grid_run useGridData_init es) ! i)) = None"
  shows "exposed (grid_step (grid_run useGridData_init es) (FetchSettles i raw))
           = exposed (grid_run useGridData_init es)"
    and "exposed (grid_step (grid_run useGridData_init es) (JsonSettles i raw'))
           = exposed (grid_run useGridData_init es)"
proof -
  let ?h = "grid_run useGridData_init es"
  have ab: "aborted (controllers ?h) (a_signal (attempts ?h ! i))"
    using grid_inv_reachable assms(1) by (rule stale_signal_aborted)
  have "received_response ?h i raw = Rejected AbortError"
    using ab assms(2)
    by (simp add: received_response_def window_fetch_def originalFetch_def Let_def)
  then show "exposed (grid_step ?h (FetchSettles i raw)) = exposed ?h"
    by (simp add: grid_fetch_settles_def grid_on_response_abort exposed_def Let_def)
  have "received_result ?h i raw' = Rejected AbortError"
    using ab assms(2)
    by (simp add: received_result_def response_json_def originalFetch_def Let_def)
  then show "exposed (grid_step ?h (JsonSettles i raw')) = exposed ?h"
    by (simp add: grid_json_settles_def grid_on_result_abort exposed_def Let_def)
qed




section \<open>Claims about the result state\<close>

text \<open>
  C3. Claimed: the data field of the exposed result state is never null, but the empty list
  before the first successful attempt. Both hooks start from \<open>useState(null)\<close>: after the
  mount, while the first request is pending, the data that either hook returns is null.
\<close>

theorem data_is_null_after_mount:
  "fst (exposed (grid_run (useGridData_init :: string list gridHook)
          [Render ''/api/products/widgets''])) = None
   \<and> fst (exposed (poll_run (usePollingFetch_init :: string pollingHook)
          [PollRender ''/api/posts'' None])) = None"
  by (simp add: grid_eval poll_eval transport_eval)

text \<open>Only a fulfilled \<open>response.json()\<close> stores data.\<close>

lemma grid_step_keeps_null:
  assumes "data h = None" and "\<not> delivers_data e"
  shows "data (grid_step h e) = None"
proof (cases e)
  case (Render k)
  with assms show ?thesis
    by (simp add: useGridData_def useGridData_effect_def useGridData_cleanup_def
        useGridData_fetchData_def Let_def split: option.splits)
next
  case Refetch
  with assms show ?thesis
    by (simp add: useGridData_def useGridData_effect_def useGridData_cleanup_def
        useGridData_fetchData_def refetchData_def Let_def split: option.splits)
next
  case Unmount
  with assms show ?thesis
    by (simp add: useGridData_unmount_def useGridData_cleanup_def split: option.splits)
next
  case (FetchSettles i raw)
  with assms grid_on_response_cases [of "received_response h i raw" h] show ?thesis
    by (auto simp: grid_fetch_settles_def Let_def)
next
  case (JsonSettles i raw)
  with assms(2) obtain err where raw: "raw = Rejected err" by (cases raw) simp_all
  have "\<exists>err'. received_result h i raw = Rejected err'"
    by (simp add: raw received_result_def response_json_def originalFetch_def Let_def
        split: option.splits)
  with assms(1) JsonSettles grid_on_result_cases [of "received_result h i raw" h]
  show ?thesis
    by (auto simp: grid_json_settles_def Let_def)
qed

lemma elapse_data: "data (elapse h) = data h"
proof -
  have "data (foldl fire g ts) = data g" for g :: "'a pollingHook" and ts
    by (induction ts arbitrary: g) (simp_all add: fire_def usePollingFetch_fetchData_def)
  then show ?thesis by (simp add: elapse_def)
qed

lemma poll_step_keeps_null:
  assumes "data h = None" and "\<not> poll_delivers_data e"
  shows "data (poll_step h e) = None"
proof (cases e)
  case (PollRender url iv)
  with assms show ?thesis
    by (simp add: usePollingFetch_def usePollingFetch_effect_def usePollingFetch_cleanup_def
        usePollingFetch_fetchData_def setInterval_def clearInterval_def Let_def
        split: option.splits prod.splits)
next
  case PollUnmount
  with assms show ?thesis
    by (simp add: usePollingFetch_unmount_def usePollingFetch_cleanup_def clearInterval_def
        Let_def split: option.splits prod.splits)
next
  case Elapse
  with assms show ?thesis by (simp add: elapse_data)
next
  case (PollFetchSettles i raw)
  with assms poll_on_response_cases [of "received_response h i raw" h] show ?thesis
    by (auto simp: poll_fetch_settles_def Let_def)
next
  case (PollJsonSettles i raw)
  with assms(2) obtain err where raw: "raw = Rejected err" by (cases raw) simp_all
  have "\<exists>err'. received_result h i raw = Rejected err'"
    by (simp add: raw received_result_def response_json_def originalFetch_def Let_def
        split: option.splits)
  with assms(1) PollJsonSettles poll_on_result_cases [of "received_result h i raw" h]
  show ?thesis
    by (auto simp: poll_json_settles_def Let_def)
qed

lemma grid_run_keeps_null:
  "data h = None \<Longrightarrow> \<forall>e \<in> set es. \<not> delivers_data e \<Longrightarrow> data (grid_run h es) = None"
  by (induction es arbitrary: h) (simp_all add: grid_step_keeps_null)

lemma poll_run_keeps_null:
  "data h = None \<Longrightarrow> \<forall>e \<in> set es. \<not> poll_delivers_data e \<Longrightarrow> data (poll_run h es) = None"
  by (induction es arbitrary: h) (simp_all add: poll_step_keeps_null)

text \<open>
  C3 as amended: in the state that the hooks return, data is null from the mount until an
  attempt's \<open>response.json()\<close> is fulfilled; \<open>ProductGrid\<close> puts the empty list in the place
  of null before it calls its render function, and the stored list once there is one.
\<close>

theorem data_null_until_first_success:
  assumes "\<forall>e \<in> set es. \<not> delivers_data e" and "\<forall>e \<in> set es'. \<not> poll_delivers_data e"
  shows "data (grid_run useGridData_init es) = None
         \<and> rs_data (ProductGrid (grid_run useGridData_init es)) = []
         \<and> data (poll_run usePollingFetch_init es') = None
         \<and> (data h = Some d \<longrightarrow> rs_data (ProductGrid h) = d)"
proof -
  have a: "data (grid_run useGridData_init es) = None"
    using assms(1) by (intro grid_run_keeps_null) (simp_all add: useGridData_init_def)
  have b: "data (poll_run usePollingFetch_init es') = None"
    using assms(2) by (intro poll_run_keeps_null) (simp_all add: usePollingFetch_init_def)
  from a b show ?thesis by (simp add: ProductGrid_def)
qed

theorem data_null_until_first_success_witness:
  "data (grid_run (useGridData_init :: string list gridHook)
      [Render ''/api/products/widgets'', FetchSettles 0 (Fulfilled 200), Refetch]) = None
   \<and> rs_data (ProductGrid (grid_run (useGridData_init :: string list gridHook)
      [Render ''/api/products/widgets'', FetchSettles 0 (Fulfilled 200), Refetch])) = []
   \<and> data (poll_run (usePollingFetch_init :: string pollingHook)
      [PollRender ''/api/posts'' (Some (Num 3000)), Elapse, PollFetchSettles 0 (Fulfilled 200)]) = None
   \<and> rs_data (ProductGrid (grid_run (useGridData_init :: string list gridHook)
      [Render ''/api/products/widgets'', FetchSettles 0 (Fulfilled 200),
       JsonSettles 0 (Fulfilled [''Turbo Widget Pro''])])) = [''Turbo Widget Pro'']"
  using data_null_until_first_success
    [of "[Render ''/api/products/widgets'', FetchSettles 0 (Fulfilled 200), Refetch]"
        "[PollRender ''/api/posts'' (Some (Num 3000)), Elapse, PollFetchSettles 0 (Fulfilled 200)]"
        "grid_run (useGridData_init :: string list gridHook)
           [Render ''/api/products/widgets'', FetchSettles 0 (Fulfilled 200),
            JsonSettles 0 (Fulfilled [''Turbo Widget Pro''])]"
        "[''Turbo Widget Pro'']"]
  by (simp add: grid_eval transport_eval)



text \<open>
  C5. Claimed for both hooks: the resolution of a cancelled attempt performs no state
  mutation and surfaces no error. Evaluated here on \<open>usePollingFetch\<close> with the endpoints of
  the polling demo: the URL changes from the posts endpoint (800 ms) to the users endpoint
  (600 ms) while the first request is pending. The cancelled posts attempt never receives an
  \<open>AbortError\<close>; it is fulfilled after the users attempt and replaces its data.
\<close>

theorem cancelled_posts_response_replaces_users:
  "exposed (poll_run (usePollingFetch_init :: string pollingHook)
      [PollRender ''/api/posts'' None, PollRender ''/api/users'' None,
       PollFetchSettles 1 (Fulfilled 200), PollJsonSettles 1 (Fulfilled ''user'')])
     = (Some ''user'', False, False)
   \<and> aborted (controllers (poll_run (usePollingFetch_init :: string pollingHook)
        [PollRender ''/api/posts'' None, PollRender ''/api/users'' None,
         PollFetchSettles 1 (Fulfilled 200), PollJsonSettles 1 (Fulfilled ''user'')])) 0
   \<and> targets (poll_run (usePollingFetch_init :: string pollingHook)
        [PollRender ''/api/posts'' None, PollRender ''/api/users'' None,
         PollFetchSettles 1 (Fulfilled 200), PollJsonSettles 1 (Fulfilled ''user'')])
       = [(''/api/posts'', 0), (''/api/users'', 1)]
   \<and> exposed (poll_run (usePollingFetch_init :: string pollingHook)
        [PollRender ''/api/posts'' None, PollRender ''/api/users'' None,
         PollFetchSettles 1 (Fulfilled 200), PollJsonSettles 1 (Fulfilled ''user''),
         PollFetchSettles 0 (Fulfilled 200), PollJsonSettles 0 (Fulfilled ''post'')])
     = (Some ''post'', False, False)"
  by (simp add: poll_eval transport_eval targets_def)

text \<open>
  The catch block itself does swallow an \<open>AbortError\<close>, at either await and in both hooks:
  an attempt that receives one leaves data, isLoading and error as they are.
\<close>

lemma abort_error_is_swallowed:
  assumes "instanceofError err" and "err_name err = ''AbortError''"
  shows "useGridData_on_response (Rejected err) h = Inr h"
    and "useGridData_on_result (Rejected err) h = Inr h"
    and "usePollingFetch_on_response (Rejected err) g = Inr g"
    and "usePollingFetch_on_result (Rejected err) g = Inr g"
  using assms
  by (simp_all add: useGridData_on_response_def useGridData_on_result_def
      useGridData_try_response_def useGridData_try_result_def useGridData_catch_def
      usePollingFetch_on_response_def usePollingFetch_on_result_def
      usePollingFetch_try_response_def usePollingFetch_try_result_def usePollingFetch_catch_def)

text \<open>
  C6. No attempt lets a thrown value escape: whatever the two awaited promises settle to,
  the rest of \<open>fetchData\<close> ends in a state, never in a value thrown on to the caller; and a
  failure other than an \<open>AbortError\<close> ends in the error field, with isLoading false.
\<close>

theorem fetchData_never_rejects:
  "(\<exists>h'. useGridData_on_response r h = Inr h')
   \<and> (\<exists>h'. useGridData_on_result r' h = Inr h')
   \<and> (\<exists>g'. usePollingFetch_on_response r g = Inr g')
   \<and> (\<exists>g'. usePollingFetch_on_result r'' g = Inr g')
   \<and> (\<not> (instanceofError err \<and> err_name err = ''AbortError'') \<longrightarrow>
        useGridData_on_response (Rejected err) h
          = Inr (h\<lparr>error := Some (if instanceofError err then err_message err
                                   else ''Failed to fetch data''),
                   isLoading := False\<rparr>)
        \<and> useGridData_on_result (Rejected err) h
          = Inr (h\<lparr>error := Some (if instanceofError err then err_message err
                                   else ''Failed to fetch data''),
                   isLoading := False\<rparr>)
        \<and> usePollingFetch_on_response (Rejected err) g
          = Inr (g\<lparr>error := True, isLoading := False\<rparr>)
        \<and> usePollingFetch_on_result (Rejected err) g
          = Inr (g\<lparr>error := True, isLoading := False\<rparr>))"
proof -
  have a: "\<exists>h'. useGridData_on_response r h = Inr h'"
    using grid_on_response_cases [of r h] by blast
  have b: "\<exists>h'. useGridData_on_result r' h = Inr h'"
    using grid_on_result_cases [of r' h] by blast
  have c: "\<exists>g'. usePollingFetch_on_response r g = Inr g'"
    using poll_on_response_cases [of r g] by blast
  have d: "\<exists>g'. usePollingFetch_on_result r'' g = Inr g'"
    using poll_on_result_cases [of r'' g] by blast
  have e: "\<not> (instanceofError err \<and> err_name err = ''AbortError'') \<longrightarrow>
        useGridData_on_response (Rejected err) h
          = Inr (h\<lparr>error := Some (if instanceofError err then err_message err
                                   else ''Failed to fetch data''),
                   isLoading := False\<rparr>)
        \<and> useGridData_on_result (Rejected err) h
          = Inr (h\<lparr>error := Some (if instanceofError err then err_message err
                                   else ''Failed to fetch data''),
                   isLoading := False\<rparr>)
        \<and> usePollingFetch_on_response (Rejected err) g
          = Inr (g\<lparr>error := True, isLoading := False\<rparr>)
        \<and> usePollingFetch_on_result (Rejected err) g
          = Inr (g\<lparr>error := True, isLoading := False\<rparr>)"
    by (simp add: useGridData_on_response_def useGridData_on_result_def
        useGridData_try_response_def useGridData_try_result_def useGridData_catch_def
        usePollingFetch_on_response_def usePollingFetch_on_result_def
        usePollingFetch_try_response_def usePollingFetch_try_result_def
        usePollingFetch_catch_def Let_def)
  from a b c d e show ?thesis by blast
qed

theorem fetchData_never_rejects_witness:
  "useGridData_on_response (Rejected NonError) (useGridData_init :: string gridHook)
     = Inr (useGridData_init\<lparr>error := Some ''Failed to fetch data'', isLoading := False\<rparr>)
   \<and> usePollingFetch_on_result (Rejected NonError) (usePollingFetch_init :: string pollingHook)
     = Inr (usePollingFetch_init\<lparr>error := True, isLoading := False\<rparr>)"
  using fetchData_never_rejects
    [where r = "Rejected NonError" and h = "useGridData_init :: string gridHook"
       and g = "usePollingFetch_init :: string pollingHook" and err = NonError]
  by (simp add: instanceofError_def)

section \<open>Claims about polling and refetching\<close>

text \<open>
  C7. Claimed for \<open>usePollingFetch\<close>: with an interval \<open>T > 0\<close> an attempt is issued every
  \<open>T\<close> milliseconds after the initial one. With the interval 2147483648, which passes the
  guard of the hook, the timeout of \<open>setInterval\<close> wraps to a negative 32-bit integer and is
  taken as 0: the claim allows one attempt in the first 60 milliseconds, and the timer adds
  one at every millisecond of them.
\<close>

theorem interval_2147483648_polls_every_millisecond:
  "targets (poll_run (usePollingFetch_init :: string pollingHook)
      (PollRender ''https://api.example.com/posts'' (Some (Num 2147483648))
       # replicate 60 Elapse))
     = (''https://api.example.com/posts'', 0)
       # replicate 60 (''https://api.example.com/posts'', 0)"
proof -
  let ?u = "''https://api.example.com/posts''"
  let ?iv = "Some (Num 2147483648)"
  let ?h = "usePollingFetch_init :: string pollingHook"
  have m: "poll_mounted ?h" and ch: "deps_changed ?h ?u ?iv"
    by (simp_all add: usePollingFetch_init_def deps_changed_def)
  have p: "polls ?iv" by (simp add: polls_def truthy_def greater_than_zero_def)
  have bg: "\<forall>e \<in> set (replicate 60 Elapse :: string poll_event list). background e" by simp
  from poll_render_changed(3) [OF poll_inv_init m ch refl p] obtain i where
    one: "intervals (poll_step ?h (PollRender ?u ?iv))
            = [(i, \<lparr>t_period = 1, t_left = 1, t_url = ?u,
                    t_signal = length (controllers ?h)\<rparr>)]"
    by (auto simp: timer_period_2147483648)
  from background_run_one_timer [OF bg one] poll_render_changed(1) [OF poll_inv_init m ch]
  show ?thesis
    by (simp add: usePollingFetch_init_def targets_def)
qed

text \<open>
  C7 as amended. \<open>usePollingFetch\<close> on a mounted hook, after any history. A render whose
  URL or interval differs from the committed ones (or the first render) issues one attempt
  at once and no other when the interval is undefined or 0 (or fails the guard otherwise);
  when the interval is \<open>T\<close> with \<open>1 \<le> T < 2^31\<close> it issues one more every \<open>T\<close>
  milliseconds, \<open>T\<close> cut to whole milliseconds, so \<open>n div T\<close> of them within \<open>n\<close>
  milliseconds. All of them are requests for the new URL on the new controller, so none
  fires for the old parameters, and the controller of the old effect run is aborted. A
  render with the same URL and interval changes nothing. After the unmount no attempt is
  added, no timer is left and every controller is aborted.
\<close>

theorem polling_schedule:
  assumes "h = poll_run usePollingFetch_init es0" and "poll_mounted h"
    and "\<forall>e \<in> set es. background e"
  shows "firings None n = 0 \<and> firings (Some (Num 0)) n = 0
         \<and> (1 \<le> T \<and> T < 2 ^ 31 \<longrightarrow> firings (Some (Num T)) n = n div nat \<lfloor>T\<rfloor>)
         \<and> (deps_changed h url interval \<longrightarrow>
              targets (poll_run (poll_step h (PollRender url interval)) es)
                = targets h @ replicate (1 + firings interval (elapsed es))
                                (url, length (controllers h)))
         \<and> (\<forall>d c tid. poll_effect h = Some (d, c, tid) \<and> d \<noteq> (url, interval) \<longrightarrow>
              aborted (controllers (poll_run (poll_step h (PollRender url interval)) es)) c)
         \<and> (\<not> deps_changed h url interval \<longrightarrow> poll_step h (PollRender url interval) = h)
         \<and> targets (poll_run (poll_step h PollUnmount) es) = targets h
         \<and> intervals (poll_run (poll_step h PollUnmount) es) = []
         \<and> (\<forall>c < length (controllers h).
              aborted (controllers (poll_run (poll_step h PollUnmount) es)) c)"
proof -
  have inv: "poll_inv h" unfolding assms(1) by (rule poll_inv_reachable)
  note m = assms(2) and bg = assms(3)
  let ?r = "poll_step h (PollRender url interval)"
  let ?u = "poll_step h PollUnmount"
  have f0: "firings None n = 0 \<and> firings (Some (Num 0)) n = 0"
    by (simp add: firings_def truthy_def)
  have fT: "firings (Some (Num T)) n = n div nat \<lfloor>T\<rfloor>" if "1 \<le> T \<and> T < 2 ^ 31"
  proof -
    have "truthy (Num T) \<and> greater_than_zero (Num T)"
      using that by (auto simp: truthy_def greater_than_zero_def)
    moreover have "timer_period (Num T) = nat \<lfloor>T\<rfloor>"
      using that by (intro timer_period_whole) simp_all
    ultimately show ?thesis by (simp add: firings_def)
  qed
  have changed: "targets (poll_run ?r es)
                   = targets h @ replicate (1 + firings interval (elapsed es))
                                   (url, length (controllers h))"
    if ch: "deps_changed h url interval"
  proof (cases "polls interval")
    case False
    have "intervals ?r = []" using poll_render_changed(2) [OF inv m ch False] .
    from background_run_no_timer [OF bg this] poll_render_changed(1) [OF inv m ch] False
    show ?thesis by (auto simp: firings_def polls_def split: option.splits)
  next
    case True
    then obtain x where x: "interval = Some x" by (cases interval) (simp_all add: polls_def)
    from poll_render_changed(3) [OF inv m ch x True] obtain i where
      one: "intervals ?r = [(i, \<lparr>t_period = timer_period x, t_left = timer_period x,
                                 t_url = url, t_signal = length (controllers h)\<rparr>)]" ..
    have p: "1 \<le> timer_period x" by (simp add: timer_period_def Let_def)
    have fi: "firings interval (elapsed es) = elapsed es div timer_period x"
      using True x by (simp add: firings_def polls_def)
    from background_run_one_timer [OF bg one] p poll_render_changed(1) [OF inv m ch]
    show ?thesis by (simp add: fi replicate_app_Cons_same)
  qed
  have old: "aborted (controllers (poll_run ?r es)) c"
    if "poll_effect h = Some (d, c, tid)" and "d \<noteq> (url, interval)" for d c tid
  proof -
    have "deps_changed h url interval" using that by (simp add: deps_changed_def)
    from poll_render_changed(4) [OF inv m this that(1)] background_run_frame [OF bg, of ?r]
    show ?thesis by simp
  qed
  have same: "?r = h" if "\<not> deps_changed h url interval"
    using that m by (auto simp: deps_changed_def usePollingFetch_def split: option.splits)
  note un = poll_unmount_props [OF inv m]
  have gone: "targets (poll_run ?u es) = targets h \<and> intervals (poll_run ?u es) = []"
    using background_run_no_timer [OF bg un(2)] un(1) by simp
  have dead: "\<forall>c < length (controllers h). aborted (controllers (poll_run ?u es)) c"
    using background_run_frame [OF bg, of ?u] un(3,4) by (simp add: aborted_def)
  from f0 fT changed old same gone dead show ?thesis by blast
qed

theorem polling_schedule_witness:
  "firings (Some (Num 3000)) 9000 = 3
   \<and> targets (poll_run (poll_step (usePollingFetch_init :: string pollingHook)
       (PollRender ''/api/posts'' (Some (Num 3000)))) (replicate 9000 Elapse))
     = replicate 4 (''/api/posts'', 0)
   \<and> targets (poll_run (poll_step (poll_run (usePollingFetch_init :: string pollingHook)
         [PollRender ''/api/posts'' (Some (Num 3000))]) (PollRender ''/api/users'' None))
           (replicate 9000 Elapse))
     = [(''/api/posts'', 0), (''/api/users'', 1)]
   \<and> aborted (controllers (poll_run (poll_step (poll_run
         (usePollingFetch_init :: string pollingHook)
         [PollRender ''/api/posts'' (Some (Num 3000))]) (PollRender ''/api/users'' None))
           (replicate 9000 Elapse))) 0
   \<and> targets (poll_run (poll_step (poll_run (usePollingFetch_init :: string pollingHook)
         [PollRender ''/api/posts'' (Some (Num 3000))]) PollUnmount) (replicate 9000 Elapse))
     = [(''/api/posts'', 0)]
   \<and> poll_step (poll_run (usePollingFetch_init :: string pollingHook)
         [PollRender ''/api/posts'' (Some (Num 3000))])
           (PollRender ''/api/posts'' (Some (Num 3000)))
     = poll_run (usePollingFetch_init :: string pollingHook)
         [PollRender ''/api/posts'' (Some (Num 3000))]"
  using polling_schedule
    [where h = "usePollingFetch_init :: string pollingHook" and ?es0.0 = "[]"
       and es = "replicate 9000 Elapse" and n = 9000 and T = 3000
       and url = "''/api/posts''" and interval = "Some (Num 3000)"]
    polling_schedule
    [where h = "poll_run (usePollingFetch_init :: string pollingHook)
                  [PollRender ''/api/posts'' (Some (Num 3000))]"
       and ?es0.0 = "[PollRender ''/api/posts'' (Some (Num 3000))]"
       and es = "replicate 9000 Elapse" and n = 0 and T = 1
       and url = "''/api/users''" and interval = None]
    polling_schedule
    [where h = "poll_run (usePollingFetch_init :: string pollingHook)
                  [PollRender ''/api/posts'' (Some (Num 3000))]"
       and ?es0.0 = "[PollRender ''/api/posts'' (Some (Num 3000))]"
       and es = "[]" and n = 0 and T = 1
       and url = "''/api/posts''" and interval = "Some (Num 3000)"]
  by (simp add: poll_eval transport_eval targets_def firings_def deps_changed_def)

text \<open>
  C8. Claimed for \<open>useGridData\<close>: \<open>n\<close> calls of \<open>refetchData()\<close> without a key change issue
  exactly \<open>n\<close> new attempts. A call only updates the trigger; the attempt is issued by the
  effect of the next render. Three calls before that render, as made in one handler, leave
  the trigger at 3 and issue one new attempt, not three.
\<close>

theorem batched_refetch_calls_issue_one_attempt:
  "targets (grid_run (useGridData_init :: string gridHook)
      [Render ''/api/products/widgets'', Refetch, Refetch, Refetch,
       Render ''/api/products/widgets''])
     = [(''/api/products/widgets'', 0), (''/api/products/widgets'', 1)]
   \<and> refetchTrigger (grid_run (useGridData_init :: string gridHook)
      [Render ''/api/products/widgets'', Refetch, Refetch, Refetch,
       Render ''/api/products/widgets'']) = 3"
  by (simp add: grid_eval transport_eval targets_def)

text \<open>Calls of \<open>refetchData()\<close>, the render after them, and rounds of a call and a render.\<close>

lemma refetch_calls:
  assumes "grid_inv h" and "effect h = Some ((k, t), c)"
  shows "grid_run h (replicate m Refetch) = h\<lparr>refetchTrigger := refetchTrigger h + m\<rparr>"
  using assms
proof (induction m arbitrary: h t)
  case 0
  then show ?case by simp
next
  case (Suc m)
  have st: "grid_step h Refetch = h\<lparr>refetchTrigger := refetchTrigger h + 1\<rparr>"
    using Suc.prems by (simp add: grid_inv_def refetchData_def)
  have inv': "grid_inv (grid_step h Refetch)" using Suc.prems(1) by (rule grid_inv_step)
  have eff': "effect (grid_step h Refetch) = Some ((k, t), c)"
    unfolding st using Suc.prems(2) by simp
  have unroll: "grid_run h (replicate (Suc m) Refetch)
                  = grid_run (grid_step h Refetch) (replicate m Refetch)"
    by simp
  show ?case
    unfolding unroll Suc.IH [OF inv' eff'] unfolding st by simp
qed

lemma render_after_refetch:
  assumes "grid_inv h" and "effect h = Some ((k, t), c)" and "t < refetchTrigger h"
  shows "effect (grid_step h (Render k)) = Some ((k, refetchTrigger h), Suc c)"
    and "attempts (grid_step h (Render k)) = attempts h @ [new_attempt k (Suc c)]"
    and "refetchTrigger (grid_step h (Render k)) = refetchTrigger h"
  using assms
  by (simp_all add: grid_inv_def useGridData_def useGridData_effect_def
      useGridData_cleanup_def useGridData_fetchData_def Let_def)

lemma refetch_round:
  assumes "grid_inv h" and "effect h = Some ((k, t), c)"
  shows "effect (grid_run h [Refetch, Render k]) = Some ((k, Suc (refetchTrigger h)), Suc c)"
    and "attempts (grid_run h [Refetch, Render k]) = attempts h @ [new_attempt k (Suc c)]"
    and "refetchTrigger (grid_run h [Refetch, Render k]) = Suc (refetchTrigger h)"
proof -
  let ?h1 = "h\<lparr>refetchTrigger := refetchTrigger h + 1\<rparr>"
  have one: "grid_run h [Refetch] = ?h1"
    using refetch_calls [OF assms, of 1] by simp
  have inv1: "grid_inv ?h1" using grid_inv_run [OF assms(1), of "[Refetch]"] one by simp
  have eff1: "effect ?h1 = Some ((k, t), c)" using assms(2) by simp
  have lt: "t < refetchTrigger ?h1" using assms by (simp add: grid_inv_def)
  have run: "grid_run h [Refetch, Render k] = grid_step ?h1 (Render k)"
    using one by simp
  note r = render_after_refetch [OF inv1 eff1 lt]
  show "effect (grid_run h [Refetch, Render k]) = Some ((k, Suc (refetchTrigger h)), Suc c)"
    unfolding run r(1) by simp
  show "attempts (grid_run h [Refetch, Render k]) = attempts h @ [new_attempt k (Suc c)]"
    unfolding run r(2) by simp
  show "refetchTrigger (grid_run h [Refetch, Render k]) = Suc (refetchTrigger h)"
    unfolding run r(3) by simp
qed

lemma grid_run_append: "grid_run h (es @ fs) = grid_run (grid_run h es) fs"
  by (simp add: grid_run_def)

lemma refetch_rounds:
  assumes "grid_inv h" and "effect h = Some ((k, t), c)"
  shows "(\<exists>t'. effect (grid_run h (concat (replicate n [Refetch, Render k])))
                 = Some ((k, t'), c + n))
         \<and> length (attempts (grid_run h (concat (replicate n [Refetch, Render k]))))
             = length (attempts h) + n
         \<and> map fst (targets (grid_run h (concat (replicate n [Refetch, Render k]))))
             = map fst (targets h) @ replicate n k
         \<and> refetchTrigger (grid_run h (concat (replicate n [Refetch, Render k])))
             = refetchTrigger h + n"
  using assms
proof (induction n arbitrary: h t c)
  case 0
  then show ?case by simp
next
  case (Suc n)
  let ?h1 = "grid_run h [Refetch, Render k]"
  note r = refetch_round [OF Suc.prems]
  have inv1: "grid_inv ?h1" using Suc.prems(1) by (rule grid_inv_run)
  have unroll: "grid_run h (concat (replicate (Suc n) [Refetch, Render k]))
                  = grid_run ?h1 (concat (replicate n [Refetch, Render k]))"
    using grid_run_append [of h "[Refetch, Render k]"] by simp
  from Suc.IH [OF inv1 r(1)] show ?case
    unfolding unroll
    by (simp del: grid_run_Cons grid_step.simps
        add: r targets_def new_attempt_def replicate_app_Cons_same)
qed

text \<open>
  C8 as amended. \<open>refetchData()\<close> itself only adds one to the trigger. On a mounted hook
  with a committed effect and no key change, \<open>n\<close> calls, each followed by a render before
  the next call, issue exactly \<open>n\<close> new attempts, all for the current key; each of these
  renders aborts the controller of the attempt before it, so that afterwards every attempt
  but the newest is cancelled and the newest is not. Calls that come before one render, one
  or more, issue one new attempt at that render.
\<close>

theorem refetch_n_times:
  assumes "h = grid_run useGridData_init es" and "effect h = Some ((k, t), c)"
  shows "exposed (refetchData h) = exposed h
         \<and> targets (refetchData h) = targets h
         \<and> controllers (refetchData h) = controllers h
         \<and> refetchTrigger (refetchData h) = refetchTrigger h + 1
         \<and> grid_step h Refetch = refetchData h
         \<and> length (attempts (grid_run h (concat (replicate n [Refetch, Render k]))))
             = length (attempts h) + n
         \<and> map fst (targets (grid_run h (concat (replicate n [Refetch, Render k]))))
             = map fst (targets h) @ replicate n k
         \<and> refetchTrigger (grid_run h (concat (replicate n [Refetch, Render k])))
             = refetchTrigger h + n
         \<and> (\<forall>j. Suc j < length (attempts (grid_run h (concat (replicate n [Refetch, Render k]))))
                \<longrightarrow> aborted (controllers (grid_run h (concat (replicate n [Refetch, Render k]))))
                      (a_signal (attempts (grid_run h (concat (replicate n [Refetch, Render k])))
                                 ! j)))
         \<and> \<not> aborted (controllers (grid_run h (concat (replicate n [Refetch, Render k]))))
                (a_signal (last (attempts (grid_run h (concat (replicate n [Refetch, Render k]))))))
         \<and> (0 < m \<longrightarrow>
               targets (grid_run h (replicate m Refetch @ [Render k]))
                 = targets h @ [(k, Suc c)]
               \<and> refetchTrigger (grid_run h (replicate m Refetch @ [Render k]))
                 = refetchTrigger h + m)"
proof -
  let ?h' = "grid_run h (concat (replicate n [Refetch, Render k]))"
  have inv: "grid_inv h" unfolding assms(1) by (rule grid_inv_reachable)
  have inv': "grid_inv ?h'" using inv by (rule grid_inv_run)
  note run = refetch_rounds [OF inv assms(2), of n]
  have call: "exposed (refetchData h) = exposed h \<and> targets (refetchData h) = targets h
      \<and> controllers (refetchData h) = controllers h
      \<and> refetchTrigger (refetchData h) = refetchTrigger h + 1"
    by (simp add: refetchData_def exposed_def targets_def)
  have ev: "grid_step h Refetch = refetchData h"
    using inv assms(2) by (simp add: grid_inv_def)
  have stale: "\<forall>j. Suc j < length (attempts ?h') \<longrightarrow>
      aborted (controllers ?h') (a_signal (attempts ?h' ! j))"
    using inv' by (simp add: stale_signal_aborted)
  from run obtain t' where eff: "effect ?h' = Some ((k, t'), c + n)" by blast
  have len: "length (attempts ?h') = Suc (c + n)" "length (controllers ?h') = Suc (c + n)"
    and live: "\<not> controllers ?h' ! (c + n)"
    and sig: "a_signal (attempts ?h' ! (c + n)) = c + n"
    using inv' eff by (simp_all add: grid_inv_def)
  have "attempts ?h' \<noteq> []" using len by auto
  then have "last (attempts ?h') = attempts ?h' ! (c + n)"
    using len by (simp add: last_conv_nth)
  then have newest: "\<not> aborted (controllers ?h') (a_signal (last (attempts ?h')))"
    using live sig by (simp add: aborted_def)
  have batch: "targets (grid_run h (replicate m Refetch @ [Render k])) = targets h @ [(k, Suc c)]
      \<and> refetchTrigger (grid_run h (replicate m Refetch @ [Render k])) = refetchTrigger h + m"
    if "0 < m"
  proof -
    let ?hm = "h\<lparr>refetchTrigger := refetchTrigger h + m\<rparr>"
    have calls: "grid_run h (replicate m Refetch) = ?hm"
      using refetch_calls [OF inv assms(2)] .
    have invm: "grid_inv ?hm" using grid_inv_run [OF inv, of "replicate m Refetch"] calls by simp
    have effm: "effect ?hm = Some ((k, t), c)" using assms(2) by simp
    have lt: "t < refetchTrigger ?hm" using inv assms(2) that by (simp add: grid_inv_def)
    note r = render_after_refetch [OF invm effm lt]
    have "grid_run h (replicate m Refetch @ [Render k]) = grid_step ?hm (Render k)"
      unfolding grid_run_append calls by simp
    then show ?thesis
      by (simp add: r targets_def new_attempt_def del: grid_step.simps)
  qed
  from call ev run stale newest batch show ?thesis by simp
qed

theorem refetch_n_times_witness:
  "effect (grid_run (useGridData_init :: string gridHook) [Render ''/api/products/widgets''])
     = Some ((''/api/products/widgets'', 0), 0)
   \<and> targets (grid_run (grid_run (useGridData_init :: string gridHook)
        [Render ''/api/products/widgets''])
        [Refetch, Render ''/api/products/widgets'', Refetch, Render ''/api/products/widgets'',
         Refetch, Render ''/api/products/widgets''])
     = [(''/api/products/widgets'', 0), (''/api/products/widgets'', 1),
        (''/api/products/widgets'', 2), (''/api/products/widgets'', 3)]
   \<and> controllers (grid_run (grid_run (useGridData_init :: string gridHook)
        [Render ''/api/products/widgets''])
        [Refetch, Render ''/api/products/widgets'', Refetch, Render ''/api/products/widgets'',
         Refetch, Render ''/api/products/widgets''])
     = [True, True, True, False]
   \<and> refetchTrigger (grid_run (grid_run (useGridData_init :: string gridHook)
        [Render ''/api/products/widgets''])
        [Refetch, Render ''/api/products/widgets'', Refetch, Render ''/api/products/widgets'',
         Refetch, Render ''/api/products/widgets'']) = 3
   \<and> targets (grid_run (grid_run (useGridData_init :: string gridHook)
        [Render ''/api/products/widgets''])
        [Refetch, Refetch, Render ''/api/products/widgets''])
     = [(''/api/products/widgets'', 0), (''/api/products/widgets'', 1)]"
  using refetch_n_times
    [where h = "grid_run (useGridData_init :: string gridHook) [Render ''/api/products/widgets'']"
       and es = "[Render ''/api/products/widgets'']" and k = "''/api/products/widgets''"
       and t = 0 and c = 0 and n = 3 and m = 2]
  by (simp add: grid_eval transport_eval targets_def numeral_3_eq_3 numeral_2_eq_2)

text \<open>No event replaces the memoised function.\<close>

lemma grid_step_keeps_ref:
  assumes "refetchData_ref h = Some f"
  shows "refetchData_ref (grid_step h e) = Some f"
proof (cases e)
  case (Render k)
  with assms show ?thesis
    by (simp add: useGridData_def useGridData_effect_def useGridData_cleanup_def
        useGridData_fetchData_def useCallback_def Let_def split: option.splits)
next
  case Refetch
  with assms show ?thesis
    by (simp add: useGridData_def useGridData_effect_def useGridData_cleanup_def
        useGridData_fetchData_def refetchData_def useCallback_def Let_def split: option.splits)
next
  case Unmount
  with assms show ?thesis
    by (simp add: useGridData_unmount_def useGridData_cleanup_def split: option.splits)
next
  case (FetchSettles i raw)
  with assms grid_on_response_cases [of "received_response h i raw" h] show ?thesis
    by (auto simp: grid_fetch_settles_def Let_def)
next
  case (JsonSettles i raw)
  with assms grid_on_result_cases [of "received_result h i raw" h] show ?thesis
    by (auto simp: grid_json_settles_def Let_def)
qed

text \<open>
  C9. The function that \<open>useGridData\<close> returns as \<open>refetchData\<close> keeps its identity: once the
  first render has memoised it, no render, no call of it and no update of data, isLoading or
  error replaces it.
\<close>

theorem refetchData_identity_is_stable:
  assumes "refetchData_ref h = Some f"
  shows "refetchData_ref (grid_run h es) = Some f"
  using assms by (induction es arbitrary: h) (simp_all add: grid_step_keeps_ref)

theorem refetchData_identity_is_stable_witness:
  "refetchData_ref (grid_run (useGridData_init :: string gridHook) [Render ''/api/products/widgets''])
     = Some 0
   \<and> refetchData_ref (grid_run (grid_run (useGridData_init :: string gridHook)
        [Render ''/api/products/widgets''])
        [FetchSettles 0 (Fulfilled 200), Render ''/api/products/widgets'',
         JsonSettles 0 (Fulfilled ''widgets''), Render ''/api/products/widgets'', Refetch])
     = Some 0"
  using refetchData_identity_is_stable
    [of "grid_run (useGridData_init :: string gridHook) [Render ''/api/products/widgets'']" 0
        "[FetchSettles 0 (Fulfilled 200), Render ''/api/products/widgets'',
          JsonSettles 0 (Fulfilled ''widgets''), Render ''/api/products/widgets'', Refetch]"]
  by (simp add: grid_eval)

text \<open>Every way an attempt is added goes through the start of \<open>fetchData\<close>.\<close>

lemma fire_all_loading:
  "foldl fire g ts = g
   \<or> (isLoading (foldl fire g ts) \<and> \<not> error (foldl fire g ts)
      \<and> length (attempts g) < length (attempts (foldl fire g ts)))"
proof (induction ts arbitrary: g)
  case Nil
  then show ?case by simp
next
  case (Cons t ts)
  show ?case
  proof (cases "due (snd t)")
    case False
    then have "fire g t = g" by (simp add: fire_def)
    with Cons.IH [of g] show ?thesis by simp
  next
    case True
    then have f: "fire g t = usePollingFetch_fetchData (t_url (snd t)) (t_signal (snd t)) g"
      by (simp add: fire_def)
    from Cons.IH [of "fire g t"] show ?thesis
      by (auto simp: f usePollingFetch_fetchData_def)
  qed
qed

lemma elapse_loading:
  "length (attempts g) < length (attempts (elapse g)) \<Longrightarrow> isLoading (elapse g) \<and> \<not> error (elapse g)"
  using fire_all_loading
    [of "g\<lparr>intervals := map (\<lambda>(i, t). (i, timer_tick t)) (intervals g)\<rparr>" "intervals g"]
  by (auto simp: elapse_def)

lemma grid_step_new_attempt:
  assumes "length (attempts h) < length (attempts (grid_step h e))"
  shows "isLoading (grid_step h e) \<and> error (grid_step h e) = None
         \<and> awaits (grid_step h e) (length (attempts h)) AwaitFetch"
proof (cases e)
  case (Render k)
  with assms show ?thesis
    by (auto simp: useGridData_def useGridData_effect_def useGridData_cleanup_def
        useGridData_fetchData_def new_attempt_def awaits_def Let_def
        split: option.splits if_splits)
next
  case Refetch
  with assms show ?thesis
    by (auto simp: useGridData_def useGridData_effect_def useGridData_cleanup_def
        useGridData_fetchData_def refetchData_def new_attempt_def awaits_def Let_def
        split: option.splits if_splits)
next
  case Unmount
  with assms show ?thesis
    by (auto simp: useGridData_unmount_def useGridData_cleanup_def split: option.splits if_splits)
next
  case (FetchSettles i raw)
  with assms grid_on_response_cases [of "received_response h i raw" h] show ?thesis
    by (auto simp: grid_fetch_settles_def Let_def split: if_splits)
next
  case (JsonSettles i raw)
  with assms grid_on_result_cases [of "received_result h i raw" h] show ?thesis
    by (auto simp: grid_json_settles_def Let_def split: if_splits)
qed

lemma poll_step_new_attempt:
  assumes "length (attempts g) < length (attempts (poll_step g e))"
  shows "isLoading (poll_step g e) \<and> \<not> error (poll_step g e)"
proof (cases e)
  case (PollRender url iv)
  with assms show ?thesis
    by (auto simp: usePollingFetch_def usePollingFetch_effect_def usePollingFetch_cleanup_def
        usePollingFetch_fetchData_def setInterval_def clearInterval_def Let_def
        split: option.splits if_splits prod.splits)
next
  case PollUnmount
  with assms show ?thesis
    by (auto simp: usePollingFetch_unmount_def usePollingFetch_cleanup_def clearInterval_def
        Let_def split: option.splits if_splits prod.splits)
next
  case Elapse
  with assms show ?thesis by (simp add: elapse_loading)
next
  case (PollFetchSettles i raw)
  with assms poll_on_response_cases [of "received_response g i raw" g] show ?thesis
    by (auto simp: poll_fetch_settles_def Let_def split: if_splits)
next
  case (PollJsonSettles i raw)
  with assms poll_on_result_cases [of "received_result g i raw" g] show ?thesis
    by (auto simp: poll_json_settles_def Let_def split: if_splits)
qed

text \<open>
  C10. In both hooks every attempt begins by setting isLoading to true and resetting error
  (null in \<open>useGridData\<close>, false in \<open>usePollingFetch\<close>), whatever they were: so does
  \<open>fetchData\<close> up to its first await, and every event that issues an attempt (first render,
  changed key or URL, refetch, timer) leaves the hook in that state with the new attempt
  pending. An error left by an earlier failure is gone from then on.
\<close>

theorem attempt_start_sets_loading_and_resets_error:
  "exposed (useGridData_fetchData apiUrl c h) = (data h, True, None)
   \<and> exposed (usePollingFetch_fetchData url c' g) = (data g, True, False)
   \<and> (length (attempts h) < length (attempts (grid_step h e)) \<longrightarrow>
        isLoading (grid_step h e) \<and> error (grid_step h e) = None
        \<and> awaits (grid_step h e) (length (attempts h)) AwaitFetch)
   \<and> (length (attempts g) < length (attempts (poll_step g e')) \<longrightarrow>
        isLoading (poll_step g e') \<and> \<not> error (poll_step g e'))"
  using grid_step_new_attempt [of h e] poll_step_new_attempt [of g e']
  by (simp add: exposed_def useGridData_fetchData_def usePollingFetch_fetchData_def)

theorem attempt_start_sets_loading_and_resets_error_witness:
  "exposed (grid_run (useGridData_init :: string gridHook)
      [Render ''https://api.example.com/posts'', FetchSettles 0 (Fulfilled 500)])
     = (None, False, Some ''HTTP error! status: 500'')
   \<and> exposed (grid_run (useGridData_init :: string gridHook)
        [Render ''https://api.example.com/posts'', FetchSettles 0 (Fulfilled 500), Refetch])
     = (None, False, Some ''HTTP error! status: 500'')
   \<and> exposed (grid_step (grid_run (useGridData_init :: string gridHook)
        [Render ''https://api.example.com/posts'', FetchSettles 0 (Fulfilled 500), Refetch])
          (Render ''https://api.example.com/posts''))
     = (None, True, None)
   \<and> exposed (poll_run (usePollingFetch_init :: string pollingHook)
        [PollRender ''/api/error'' (Some (Num 3000)), PollFetchSettles 0 (Fulfilled 200)])
     = (None, False, True)
   \<and> exposed (poll_step (poll_run (usePollingFetch_init :: string pollingHook)
        [PollRender ''/api/error'' (Some (Num 3000)), PollFetchSettles 0 (Fulfilled 200)])
          (PollRender ''/api/posts'' (Some (Num 3000))))
     = (None, True, False)"
  using attempt_start_sets_loading_and_resets_error
    [where h = "grid_run (useGridData_init :: string gridHook)
                  [Render ''https://api.example.com/posts'', FetchSettles 0 (Fulfilled 500),
                   Refetch]"
       and e = "Render ''https://api.example.com/posts''"
       and g = "poll_run (usePollingFetch_init :: string pollingHook)
                  [PollRender ''/api/error'' (Some (Num 3000)), PollFetchSettles 0 (Fulfilled 200)]"
       and e' = "PollRender ''/api/posts'' (Some (Num 3000))"]
  by (simp add: grid_eval poll_eval transport_eval decimal_500)


end
